theory Spec2Isabelle
  imports Main
begin

section \<open>Strings and paths\<close>

text \<open>
  The build script \<^verbatim>\<open>scripts/build.js\<close> works on JavaScript strings. They are modelled
  as \<^typ>\<open>string\<close>; a \<^typ>\<open>char\<close> stands for a code unit below 256. The string
  methods the script calls are written out below, each with the behaviour the script
  relies on.
\<close>

text \<open>\<^verbatim>\<open>s.startsWith(p)\<close> and \<^verbatim>\<open>s.endsWith(p)\<close>.\<close>

fun startsWith :: "string \<Rightarrow> string \<Rightarrow> bool" where
  "startsWith s [] = True"
| "startsWith [] (p # ps) = False"
| "startsWith (c # cs) (p # ps) = (c = p \<and> startsWith cs ps)"

definition endsWith :: "string \<Rightarrow> string \<Rightarrow> bool" where
  "endsWith s p = startsWith (rev s) (rev p)"

text \<open>
  \<^verbatim>\<open>s.toLowerCase()\<close>, on the letters of ASCII. (Below code unit 256 nothing else
  lower-cases to a character of \<^verbatim>\<open>.pak\<close>, the one string the result is compared with.)
\<close>

definition lowerChar :: "char \<Rightarrow> char" where
  "lowerChar c =
     (case map_of (zip ''ABCDEFGHIJKLMNOPQRSTUVWXYZ'' ''abcdefghijklmnopqrstuvwxyz'') c of
        Some l \<Rightarrow> l
      | None \<Rightarrow> c)"

definition toLowerCase :: "string \<Rightarrow> string" where
  "toLowerCase s = map lowerChar s"

text \<open>
  \<^verbatim>\<open>path.join(dir, item)\<close> for a directory and the name of one of its entries: the
  two joined by the separator. (Normalisation of dot segments is not modelled: names
  returned by \<^verbatim>\<open>readdirSync\<close> have none.)
\<close>

definition join :: "string \<Rightarrow> string \<Rightarrow> string" where
  "join dir item = dir @ ''/'' @ item"

text \<open>
  \<^verbatim>\<open>s.replace(pat, rep)\<close> with a string pattern: only the first occurrence of
  \<open>pat\<close> is replaced (the replacements of the script contain no \<^verbatim>\<open>$\<close>).
\<close>

fun replace :: "string \<Rightarrow> string \<Rightarrow> string \<Rightarrow> string" where
  "replace [] pat rep = (if pat = [] then rep else [])"
| "replace (c # cs) pat rep =
     (if startsWith (c # cs) pat then rep @ drop (length pat) (c # cs)
      else c # replace cs pat rep)"

text \<open>Decimal digits of a number, as template literals print it.\<close>

fun digits :: "nat \<Rightarrow> string" where
  "digits n =
     (if n < 10 then [''0123456789'' ! n]
      else digits (n div 10) @ [''0123456789'' ! (n mod 10)])"

declare digits.simps [simp del]

section \<open>The directory tree and its enumeration\<close>

text \<open>
  What \<^verbatim>\<open>readdirSync\<close> and \<^verbatim>\<open>statSync(...).isDirectory()\<close> show of a directory:
  its entries in listing order, each a file or a directory with its own listing.
\<close>

datatype entry = File | Dir "(string \<times> entry) list"

text \<open>
  \<^verbatim>\<open>buildFileList\<close> (lines 98-110): walks the listing in order, descends into
  directories, and pushes every other path unless its lower-cased form ends in
  \<^verbatim>\<open>.pak\<close>. The shared array \<^verbatim>\<open>fileList\<close> is the result.
\<close>

fun buildFileList :: "string \<Rightarrow> (string \<times> entry) list \<Rightarrow> string list" where
  "buildFileList dir [] = []"
| "buildFileList dir ((item, Dir sub) # items) =
     buildFileList (join dir item) sub @ buildFileList dir items"
| "buildFileList dir ((item, File) # items) =
     (let fullPath = join dir item
      in (if \<not> endsWith (toLowerCase fullPath) ''.pak'' then [fullPath] else [])
         @ buildFileList dir items)"

section \<open>Effects, failures and the outside world\<close>

text \<open>
  The script acts on the file system, on two external tools and on the console. Each
  action is an event; a run yields its events in order.
\<close>

datatype event =
    RmTree string  \<comment> \<open>\<^verbatim>\<open>rmSync(p, { recursive: true, force: true })\<close>\<close>
  | MkDir string  \<comment> \<open>\<^verbatim>\<open>mkdirSync(p, { recursive: true })\<close>\<close>
  | CpTree string string  \<comment> \<open>\<^verbatim>\<open>cpSync(from, to, { recursive: true })\<close>\<close>
  | RmFile string  \<comment> \<open>\<^verbatim>\<open>rmSync(p)\<close>\<close>
  | Rename string string  \<comment> \<open>\<^verbatim>\<open>renameSync(from, to)\<close>\<close>
  | Zip string string "string list"
      \<comment> \<open>\<^verbatim>\<open>execSync\<close> of the zip command: working directory, archive, file arguments\<close>
  | SevenZip string string
      \<comment> \<open>\<^verbatim>\<open>execSync\<close> of the 7z command: archive, source pattern\<close>
  | Log string  \<comment> \<open>\<^verbatim>\<open>console.log\<close>\<close>
  | Err string  \<comment> \<open>\<^verbatim>\<open>console.error\<close>\<close>

text \<open>
  A run ends normally, or in \<^verbatim>\<open>process.exit(code)\<close>, or in an exception nobody
  catches (\<^verbatim>\<open>execSync\<close> throws when the tool exits nonzero). A run that never ends
  has no result: the functions below return \<open>None\<close> for it.
\<close>

datatype error = ProcessExit nat | UncaughtException

type_synonym result = "(error + unit) \<times> event list"

text \<open>
  What one call of the zip tool does, as the script sees it: \<^verbatim>\<open>execSync\<close> throws, or
  it returns and \<^verbatim>\<open>existsSync(pakPath)\<close> then answers.
\<close>

datatype tool_result = Threw | Returned bool

text \<open>
  Everything the script reads from outside. The file-system calls other than the tools
  are taken to succeed.
\<close>

record world =
  args :: "string list"  \<comment> \<open>\<^verbatim>\<open>argv.slice(2)\<close>\<close>
  envMODE :: "string option"  \<comment> \<open>\<^verbatim>\<open>process.env.MODE\<close>\<close>
  envVERSION :: "string option"  \<comment> \<open>\<^verbatim>\<open>process.env.VERSION\<close>\<close>
  rootDirectory :: string
  manifest :: "string option"  \<comment> \<open>content of \<^verbatim>\<open>src/mod.manifest\<close>, if the file exists\<close>
  dataTree :: "(string \<times> entry) list"  \<comment> \<open>listing of the staged \<^verbatim>\<open>Data\<close> directory\<close>
  statSize :: "string \<Rightarrow> nat"  \<comment> \<open>\<^verbatim>\<open>statSync(file).size\<close>\<close>
  zipTool :: "string \<Rightarrow> string list \<Rightarrow> tool_result"  \<comment> \<open>by archive and file arguments\<close>
  sevenZipThrows :: bool
  existsSync :: "string \<Rightarrow> bool"  \<comment> \<open>for the paths the script asks about before it writes them\<close>

text \<open>Running \<open>k\<close> after \<open>m\<close>: a failure of \<open>m\<close> ends the run, the events add up.\<close>

definition andThen :: "result option \<Rightarrow> result option \<Rightarrow> result option" where
  "andThen m k =
     (case m of
        None \<Rightarrow> None
      | Some (Inl e, evs) \<Rightarrow> Some (Inl e, evs)
      | Some (Inr u, evs) \<Rightarrow>
          (case k of None \<Rightarrow> None | Some (r, evs') \<Rightarrow> Some (r, evs @ evs')))"

definition emit :: "event list \<Rightarrow> result option" where
  "emit evs = Some (Inr (), evs)"

definition exitWith :: "nat \<Rightarrow> event list \<Rightarrow> result option" where
  "exitWith code evs = Some (Inl (ProcessExit code), evs)"

section \<open>The packer\<close>

definition maxSizeBytes :: nat where
  "maxSizeBytes = 2 * 1024 * 1024 * 1024"

definition dq :: string where
  "dq = [CHR 0x22]"

definition sq :: string where
  "sq = [CHR 0x27]"

text \<open>\<^verbatim>\<open>xs.join(sep)\<close>.\<close>

fun joinWith :: "string \<Rightarrow> string list \<Rightarrow> string" where
  "joinWith sep [] = []"
| "joinWith sep [x] = x"
| "joinWith sep (x # y # ys) = x @ sep @ joinWith sep (y # ys)"

text \<open>
  \<^verbatim>\<open>path.relative(from, to)\<close> for a path below \<open>from\<close>: what follows the directory and
  its separator. Every enumerated file is such a path (lemma \<open>buildFileList_below\<close>).
\<close>

definition relative :: "string \<Rightarrow> string \<Rightarrow> string" where
  "relative from to = drop (length from + 1) to"

text \<open>
  The inner loop (lines 131-142): from \<^verbatim>\<open>fileIdx\<close> on, files are taken while the
  running size stays within the limit; the first file that would exceed it ends the
  loop, also when nothing has been taken yet. The result is \<^verbatim>\<open>filesToPack\<close>, and
  \<^verbatim>\<open>fileIdx\<close> has advanced by its length. Sizes are natural numbers: the script's
  sums of file sizes are exact, and never wrap.
\<close>

fun filesToPack :: "(string \<Rightarrow> nat) \<Rightarrow> string \<Rightarrow> string list \<Rightarrow> nat \<Rightarrow> string list" where
  "filesToPack sizeOf dataSourceDirectory [] pakSize = []"
| "filesToPack sizeOf dataSourceDirectory (file # rest) pakSize =
     (let fileSize = sizeOf file
      in if pakSize + fileSize > maxSizeBytes then []
         else relative dataSourceDirectory file
              # filesToPack sizeOf dataSourceDirectory rest (pakSize + fileSize))"

definition zipCommand :: "string \<Rightarrow> string list \<Rightarrow> string" where
  "zipCommand pakPath files =
     ''zip -r -9 -X '' @ dq @ pakPath @ dq @ '' ''
       @ joinWith '' '' (map (\<lambda>f. dq @ f @ dq) files)"

definition partPath :: "string \<Rightarrow> nat \<Rightarrow> string" where
  "partPath pakOutputPath pakPartNo =
     replace pakOutputPath ''.pak'' (''-part'' @ digits pakPartNo @ ''.pak'')"

text \<open>
  The outer loop (lines 125-162), from a given \<^verbatim>\<open>fileIdx\<close> and \<^verbatim>\<open>pakPartNo\<close>, with
  the file sizes and the zip tool of the world. It may run forever, so it is a partial
  function.
\<close>

partial_function (option) pakLoop ::
  "(string \<Rightarrow> nat) \<Rightarrow> (string \<Rightarrow> string list \<Rightarrow> tool_result) \<Rightarrow> string \<Rightarrow> string
     \<Rightarrow> string list \<Rightarrow> nat \<Rightarrow> nat \<Rightarrow> result option"
where
  "pakLoop sizeOf tool dataSourceDirectory pakOutputPath fileList fileIdx pakPartNo =
     (if fileIdx < length fileList then
        (let pakPath = (if pakPartNo > 0 then partPath pakOutputPath pakPartNo
                        else pakOutputPath);
             files = filesToPack sizeOf dataSourceDirectory (drop fileIdx fileList) 0;
             fileIdx' = fileIdx + length files;
             evs = [Log (''Creating pak part '' @ digits pakPartNo @ '': ''
                         @ zipCommand pakPath files),
                    Zip dataSourceDirectory pakPath files]
         in case tool pakPath files of
              Threw \<Rightarrow> Some (Inl UncaughtException, evs)
            | Returned there \<Rightarrow>
                if \<not> there then
                  Some (Inl (ProcessExit 1),
                        evs @ [Err (''ERROR: Failed to create '' @ sq @ pakPath @ sq @ ''.'')])
                else if fileIdx' < length fileList then
                  Option.bind
                    (pakLoop sizeOf tool dataSourceDirectory pakOutputPath fileList fileIdx'
                       (pakPartNo + 1))
                    (\<lambda>(r, evs').
                       Some (r, evs
                                @ (if pakPartNo = 0
                                   then [Rename pakPath (partPath pakOutputPath 0)]
                                   else [])
                                @ evs'))
                else
                  Option.bind
                    (pakLoop sizeOf tool dataSourceDirectory pakOutputPath fileList fileIdx'
                       pakPartNo)
                    (\<lambda>(r, evs'). Some (r, evs @ evs')))
      else Some (Inr (), []))"

text \<open>\<^verbatim>\<open>compressToPak\<close> (lines 94-163).\<close>

definition compressToPak :: "world \<Rightarrow> string \<Rightarrow> string \<Rightarrow> result option" where
  "compressToPak w dataSourceDirectory pakOutputPath =
     (let fileList = buildFileList dataSourceDirectory (dataTree w)
      in if length fileList = 0 then
           exitWith 1
             [Err (''ERROR: No files found in '' @ sq @ dataSourceDirectory @ sq
                   @ '' to pack.'')]
         else pakLoop (statSize w) (zipTool w) dataSourceDirectory pakOutputPath fileList 0 0)"

section \<open>Command line and manifest\<close>

text \<open>\<^verbatim>\<open>s.split(sep)\<close> for a separator of one character.\<close>

fun split :: "string \<Rightarrow> char \<Rightarrow> string list" where
  "split [] sep = [[]]"
| "split (c # cs) sep =
     (if c = sep then [] # split cs sep
      else (case split cs sep of [] \<Rightarrow> [[c]] | p # ps \<Rightarrow> (c # p) # ps))"

text \<open>
  \<^verbatim>\<open>args.find((arg) => arg.startsWith(flag))?.split("=")[1]\<close>: the first argument
  that starts with the flag, cut at its \<^verbatim>\<open>=\<close> signs, second piece; undefined when no
  argument starts with the flag.
\<close>

definition flagValue :: "string \<Rightarrow> string list \<Rightarrow> string option" where
  "flagValue flag as =
     (case find (\<lambda>arg. startsWith arg flag) as of
        None \<Rightarrow> None
      | Some arg \<Rightarrow> (case split arg (CHR ''='') of _ # v # _ \<Rightarrow> Some v | _ \<Rightarrow> None))"

text \<open>
  \<^verbatim>\<open>a || b || fallback\<close> on strings that may be undefined: the first one that is
  defined and not empty.
\<close>

fun firstTruthy :: "string option list \<Rightarrow> string \<Rightarrow> string" where
  "firstTruthy [] fallback = fallback"
| "firstTruthy (None # vs) fallback = firstTruthy vs fallback"
| "firstTruthy (Some v # vs) fallback = (if v = [] then firstTruthy vs fallback else v)"

definition validEnvironments :: "string list" where
  "validEnvironments = [''prod'', ''dev'']"

definition validVersions :: "string list" where
  "validVersions = [''main'', ''lorem-ipsum'']"

definition nl :: string where
  "nl = [CHR 0x0A]"

definition usage :: string where
  "usage = nl
     @ ''Usage: node build.js [--env=prod|dev] [--version=main|lorem-ipsum] [--help]'' @ nl
     @ ''--env=prod|dev          Sets the environment (default: prod).'' @ nl
     @ ''--version=main|lorem-ipsum   Sets the version (default: main).'' @ nl
     @ ''--help                  Displays this help message.'' @ nl"

text \<open>
  The regular expressions of lines 66-68, \<^verbatim>\<open>/<tag>(.+?)<\/tag>/\<close>. After the
  opening tag, \<^verbatim>\<open>(.+?)\<close> takes one character that is no line terminator and then as
  few more as possible until the closing tag follows.
\<close>

definition lineTerminator :: "char \<Rightarrow> bool" where
  "lineTerminator c = (c = CHR 0x0A \<or> c = CHR 0x0D)"

fun lazyGroup :: "string \<Rightarrow> string \<Rightarrow> string \<Rightarrow> string option" where
  "lazyGroup closing taken [] = None"
| "lazyGroup closing taken (c # cs) =
     (if lineTerminator c then None
      else if startsWith cs closing then Some (taken @ [c])
      else lazyGroup closing (taken @ [c]) cs)"

text \<open>
  \<^verbatim>\<open>regex.exec(content)?.[1]\<close>: the group of the leftmost match, undefined when there
  is no match.
\<close>

fun execTag :: "string \<Rightarrow> string \<Rightarrow> string \<Rightarrow> string option" where
  "execTag opening closing [] = None"
| "execTag opening closing (c # cs) =
     (if startsWith (c # cs) opening then
        (case lazyGroup closing [] (drop (length opening) (c # cs)) of
           Some g \<Rightarrow> Some g
         | None \<Rightarrow> execTag opening closing cs)
      else execTag opening closing cs)"

section \<open>Staging, packing and bundling\<close>

definition sourceDirectory :: "world \<Rightarrow> string" where
  "sourceDirectory w = join (rootDirectory w) ''src''"

definition temporaryBuildDirectory :: "world \<Rightarrow> string" where
  "temporaryBuildDirectory w = join (rootDirectory w) ''temp_build''"

definition cleanBuildDirectory :: "world \<Rightarrow> result option" where
  "cleanBuildDirectory w =
     emit [RmTree (temporaryBuildDirectory w), MkDir (temporaryBuildDirectory w)]"

definition prepareBuild :: "world \<Rightarrow> result option" where
  "prepareBuild w = emit [CpTree (sourceDirectory w) (temporaryBuildDirectory w)]"

definition removeNonProductionFiles :: "world \<Rightarrow> result option" where
  "removeNonProductionFiles w =
     (let scriptsDirectory = join (join (temporaryBuildDirectory w) ''Data'') ''Scripts'';
          libsDirectory = join (join (temporaryBuildDirectory w) ''Data'') ''Libs''
      in emit ((if existsSync w scriptsDirectory then [RmTree scriptsDirectory] else [])
               @ (if existsSync w libsDirectory then [RmTree libsDirectory] else [])))"

definition packData :: "world \<Rightarrow> string \<Rightarrow> result option" where
  "packData w modIdentifier =
     (let dataDirectory = join (temporaryBuildDirectory w) ''Data'';
          modPakFile = join dataDirectory (modIdentifier @ ''.pak'')
      in andThen (compressToPak w dataDirectory modPakFile) (removeNonProductionFiles w))"

definition packMod :: "world \<Rightarrow> string \<Rightarrow> string \<Rightarrow> result option" where
  "packMod w modVersion outputFileName =
     (let finalZipPath = join (rootDirectory w) (outputFileName @ ''_'' @ modVersion @ ''.zip'');
          sevenZipBinary =
            join (join (join (join (rootDirectory w) ''node_modules'') ''7z-bin'') ''linux'')
              ''7zzs'';
          sevenZipCommand =
            dq @ sevenZipBinary @ dq @ '' a '' @ dq @ finalZipPath @ dq @ '' '' @ dq
              @ temporaryBuildDirectory w @ ''/*'' @ dq;
          evs = (if existsSync w finalZipPath then [RmFile finalZipPath] else [])
                @ [Log (''Zipping final mod: '' @ sevenZipCommand),
                   SevenZip finalZipPath (temporaryBuildDirectory w @ ''/*'')]
      in if sevenZipThrows w then Some (Inl UncaughtException, evs)
         else emit (evs @ [RmTree (temporaryBuildDirectory w),
                           Log (''Built '' @ outputFileName @ '' mod: '' @ finalZipPath),
                           Log (''ZIP_FILE:'' @ finalZipPath)]))"

text \<open>The constants of lines 18-26.\<close>

definition environment :: "world \<Rightarrow> string" where
  "environment w = firstTruthy [flagValue ''--env='' (args w), envMODE w] ''dev''"

definition version :: "world \<Rightarrow> string" where
  "version w = firstTruthy [flagValue ''--version='' (args w), envVERSION w] ''main''"

definition isHelpRequested :: "world \<Rightarrow> bool" where
  "isHelpRequested w = (''--help'' \<in> set (args w))"

text \<open>
  The rest of the script (lines 31-73 and 197-209), for given values \<open>env\<close>,
  \<open>ver\<close> and \<open>help\<close> of the three constants. A manifest field that is undefined or empty is falsy; both are \<open>[]\<close> here.
\<close>

definition main :: "string \<Rightarrow> string \<Rightarrow> bool \<Rightarrow> world \<Rightarrow> result option" where
  "main env ver help w =
     (if help then exitWith 0 [Log usage]
      else if env \<notin> set validEnvironments then
        exitWith 1
          [Err (''ERROR: Invalid --env value '' @ sq @ env @ sq
                @ ''. Must be one of: '' @ joinWith '', '' validEnvironments)]
      else if ver \<notin> set validVersions then
        exitWith 1
          [Err (''ERROR: Invalid --version value '' @ sq @ ver @ sq
                @ ''. Must be one of: '' @ joinWith '', '' validVersions)]
      else
        (case manifest w of
           None \<Rightarrow> exitWith 1 [Err ''ERROR: mod.manifest not found in src!'']
         | Some manifestContent \<Rightarrow>
             (let modIdentifier =
                    firstTruthy [execTag ''<modid>'' ''</modid>'' manifestContent] [];
                  modVersion =
                    firstTruthy [execTag ''<version>'' ''</version>'' manifestContent] [];
                  modName = firstTruthy [execTag ''<name>'' ''</name>'' manifestContent] []
              in if modIdentifier = [] \<or> modVersion = [] \<or> modName = [] then
                   exitWith 1 [Err ''ERROR: Missing required fields in mod.manifest.'']
                 else if env = ''prod'' then
                   andThen
                     (emit [Log (''Building production version ('' @ ver @ '')...'')])
                  (andThen (cleanBuildDirectory w)
                  (andThen (prepareBuild w)
                  (andThen (packData w modIdentifier)
                           (packMod w modVersion (modName @ ''_'' @ ver)))))
                 else if env = ''dev'' then
                   andThen
                     (emit [Log (''Building development version ('' @ ver @ '')...'')])
                  (andThen (cleanBuildDirectory w)
                  (andThen (prepareBuild w)
                  (andThen (packData w modIdentifier)
                           (packMod w modVersion (modName @ ''_'' @ ver)))))
                 else emit [])))"

definition script :: "world \<Rightarrow> result option" where
  "script w = main (environment w) (version w) (isHelpRequested w) w"

section \<open>Reading a run\<close>

text \<open>The archives the final bundler was asked to write, in order.\<close>

fun bundles :: "event list \<Rightarrow> string list" where
  "bundles [] = []"
| "bundles (SevenZip archive pattern # evs) = archive # bundles evs"
| "bundles (e # evs) = bundles evs"

text \<open>
  The pak archives at the end of a run, in the order of their creation: each call of
  the zip tool adds one under the path it was given, with the files it was given; a
  rename moves the archives of that path.
\<close>

fun paks :: "event list \<Rightarrow> (string \<times> string list) list \<Rightarrow> (string \<times> string list) list" where
  "paks [] acc = acc"
| "paks (Zip cwd pakPath files # evs) acc = paks evs (acc @ [(pakPath, files)])"
| "paks (Rename from to # evs) acc =
     paks evs (map (\<lambda>(p, fs). (if p = from then to else p, fs)) acc)"
| "paks (e # evs) acc = paks evs acc"

text \<open>The file arguments of all calls of the zip tool.\<close>

fun zipped :: "event list \<Rightarrow> string list" where
  "zipped [] = []"
| "zipped (Zip cwd pakPath files # evs) = files @ zipped evs"
| "zipped (e # evs) = zipped evs"

text \<open>Console lines, as opposed to actions on files and tools.\<close>

fun isConsole :: "event \<Rightarrow> bool" where
  "isConsole (Log s) = True"
| "isConsole (Err s) = True"
| "isConsole e = False"

definition actions :: "event list \<Rightarrow> event list" where
  "actions evs = filter (\<lambda>e. \<not> isConsole e) evs"

section \<open>Example worlds\<close>

text \<open>
  A small world for concrete runs: a mod \<open>m\<close> named \<open>N\<close> at version 1, three data
  files of one gigabyte each, tools that succeed.
\<close>

definition exampleWorld :: world where
  "exampleWorld =
     \<lparr> args = [], envMODE = None, envVERSION = None, rootDirectory = ''/r'',
       manifest = Some ''<modid>m</modid><version>1</version><name>N</name>'',
       dataTree = [(''a'', File), (''b'', File), (''c'', File)],
       statSize = (\<lambda>file. 1024 * 1024 * 1024),
       zipTool = (\<lambda>pakPath files. Returned True),
       sevenZipThrows = False,
       existsSync = (\<lambda>path. False) \<rparr>"

text \<open>A data directory with a text file, a leftover archive and a subdirectory.\<close>

definition leftoverTree :: "(string \<times> entry) list" where
  "leftoverTree =
     [(''a.txt'', File), (''old.PAK'', File),
      (''sub'', Dir [(''m.pak'', File), (''b.xml'', File)])]"

definition leftoverWorld :: world where
  "leftoverWorld = exampleWorld\<lparr>dataTree := leftoverTree\<rparr>"

text \<open>A data directory that holds nothing to pack.\<close>

definition barrenTree :: "(string \<times> entry) list" where
  "barrenTree = [(''m.pak'', File), (''empty'', Dir [])]"

text \<open>A single data file of three gigabytes, more than an archive may hold.\<close>

definition oversizedWorld :: world where
  "oversizedWorld =
     exampleWorld\<lparr>dataTree := [(''big.bin'', File)],
                  statSize := (\<lambda>file. 3 * 1024 * 1024 * 1024)\<rparr>"

text \<open>
  A file of one gigabyte followed by one of three, and a zip tool that exits nonzero
  when it is given no file to add.
\<close>

definition mixedWorld :: world where
  "mixedWorld =
     exampleWorld\<lparr>dataTree := [(''a'', File), (''big.bin'', File)],
                  statSize := (\<lambda>file. if file = ''/d/big.bin'' then 3 * 1024 * 1024 * 1024
                                      else 1024 * 1024 * 1024),
                  zipTool := (\<lambda>pakPath files. if files = [] then Threw else Returned True)\<rparr>"

text \<open>A mod whose identifier contains \<^verbatim>\<open>.pak\<close>.\<close>

definition dottedWorld :: world where
  "dottedWorld =
     exampleWorld\<lparr>manifest := Some ''<modid>a.pakb</modid><version>1</version><name>N</name>''\<rparr>"

text \<open>A manifest without its \<^verbatim>\<open><name>\<close> tag.\<close>

definition namelessWorld :: world where
  "namelessWorld = exampleWorld\<lparr>manifest := Some ''<modid>m</modid><version>1</version>''\<rparr>"

text \<open>A project root that still holds the bundle of an earlier build.\<close>

definition rebuiltWorld :: world where
  "rebuiltWorld = exampleWorld\<lparr>existsSync := (\<lambda>path. path = ''/r/N_main_1.zip'')\<rparr>"

section \<open>Unfolding a concrete run\<close>

lemmas run_defs =
  script_def main_def environment_def version_def isHelpRequested_def flagValue_def
  validEnvironments_def validVersions_def exitWith_def emit_def andThen_def
  cleanBuildDirectory_def prepareBuild_def packData_def packMod_def compressToPak_def
  removeNonProductionFiles_def temporaryBuildDirectory_def sourceDirectory_def
  join_def endsWith_def toLowerCase_def lowerChar_def relative_def maxSizeBytes_def
  partPath_def zipCommand_def dq_def sq_def lineTerminator_def Let_def

section \<open>What the enumeration leaves out\<close>

lemma buildFileList_no_pak:
  "p \<in> set (buildFileList dir tree) \<Longrightarrow> \<not> endsWith (toLowerCase p) ''.pak''"
  by (induction dir tree rule: buildFileList.induct) (auto simp: Let_def split: if_splits)

text \<open>Every enumerated path lies below the directory, so its relative path is its rest.\<close>

lemma buildFileList_prefix:
  "p \<in> set (buildFileList dir tree) \<Longrightarrow> \<exists>rest. p = dir @ ''/'' @ rest"
proof (induction dir tree rule: buildFileList.induct)
  case (1 dir)
  then show ?case by simp
next
  case (2 dir item sub items)
  from "2.prems" consider "p \<in> set (buildFileList (join dir item) sub)"
    | "p \<in> set (buildFileList dir items)"
    by auto
  then show ?case
  proof cases
    case 1
    from "2.IH"(1) [OF this] obtain rest where "p = join dir item @ ''/'' @ rest"
      by blast
    then have "p = dir @ ''/'' @ (item @ ''/'' @ rest)"
      by (simp add: join_def)
    then show ?thesis by blast
  next
    case 2
    from "2.IH"(2) [OF this] show ?thesis .
  qed
next
  case (3 dir item items)
  from "3.prems" consider "p = join dir item" | "p \<in> set (buildFileList dir items)"
    by (auto simp: Let_def split: if_splits)
  then show ?case
  proof cases
    case 1
    then show ?thesis by (auto simp: join_def)
  next
    case 2
    from "3.IH" [OF refl this] show ?thesis .
  qed
qed

lemma buildFileList_below:
  "p \<in> set (buildFileList dir tree) \<Longrightarrow> p = dir @ ''/'' @ relative dir p"
  by (auto simp: relative_def dest: buildFileList_prefix)

lemma leftoverTree_list:
  "buildFileList ''/d'' leftoverTree = [''/d/a.txt'', ''/d/sub/b.xml'']"
  by (simp add: leftoverTree_def join_def endsWith_def toLowerCase_def lowerChar_def)

text \<open>The zip tool is given relative paths of enumerated files only.\<close>

lemma zipped_append: "zipped (xs @ ys) = zipped xs @ zipped ys"
  by (induction xs rule: zipped.induct) auto

lemma filesToPack_subset:
  "set (filesToPack sizeOf dir xs acc) \<subseteq> relative dir ` set xs"
  by (induction xs arbitrary: acc) (auto simp: Let_def)

lemma pakLoop_zipped:
  assumes "pakLoop sizeOf tool dir out fl i n = Some y"
  shows "set (zipped (snd y)) \<subseteq> relative dir ` set fl"
proof (rule pakLoop.raw_induct
    [where P = "\<lambda>sizeOf tool dir out fl i n y. set (zipped (snd y)) \<subseteq> relative dir ` set fl",
     OF _ assms], goal_cases)
  case (1 f sizeOf tool dir out fl i n y)
  have files: "set (filesToPack sizeOf dir (drop i fl) 0) \<subseteq> relative dir ` set fl"
    using filesToPack_subset [of sizeOf dir "drop i fl" 0] set_drop_subset [of i fl]
    by blast
  from 1(2) files show ?case
    unfolding Let_def
    by (auto simp: zipped_append Option.bind_eq_Some_conv
        split: if_splits tool_result.splits dest!: 1(1))
qed

lemma compressToPak_zipped:
  assumes "compressToPak w dir out = Some (r, evs)"
  shows "set (zipped evs) \<subseteq> relative dir ` set (buildFileList dir (dataTree w))"
  using assms pakLoop_zipped [of "statSize w" "zipTool w" dir out _ 0 0 "(r, evs)"]
  by (auto simp: compressToPak_def exitWith_def Let_def split: if_splits)

text \<open>
  Claim C8: no path that \<^verbatim>\<open>buildFileList\<close> enumerates ends in \<^verbatim>\<open>.pak\<close>, in whatever
  case the extension is written; and every file that a run of \<^verbatim>\<open>compressToPak\<close> hands
  to the zip tool is the relative path of such an enumerated path. So an archive left
  in the tree by an earlier build is not among the files of the new packing pass.
\<close>

theorem enumeration_excludes_paks:
  "(\<forall>p \<in> set (buildFileList dir tree). \<not> endsWith (toLowerCase p) ''.pak'')
   \<and> (\<forall>r evs. compressToPak w dir out = Some (r, evs)
        \<longrightarrow> (\<forall>f \<in> set (zipped evs).
               \<exists>p \<in> set (buildFileList dir (dataTree w)).
                 f = relative dir p \<and> \<not> endsWith (toLowerCase p) ''.pak''))"
proof (intro conjI allI impI ballI)
  fix p
  assume "p \<in> set (buildFileList dir tree)"
  then show "\<not> endsWith (toLowerCase p) ''.pak''"
    by (rule buildFileList_no_pak)
next
  fix r evs f
  assume "compressToPak w dir out = Some (r, evs)" and "f \<in> set (zipped evs)"
  then obtain p where "p \<in> set (buildFileList dir (dataTree w))" "f = relative dir p"
    using compressToPak_zipped by blast
  then show "\<exists>p \<in> set (buildFileList dir (dataTree w)).
      f = relative dir p \<and> \<not> endsWith (toLowerCase p) ''.pak''"
    using buildFileList_no_pak by blast
qed

theorem enumeration_excludes_paks_witness:
  "buildFileList ''/d'' leftoverTree = [''/d/a.txt'', ''/d/sub/b.xml'']
   \<and> endsWith (toLowerCase ''/d/old.PAK'') ''.pak''
   \<and> endsWith (toLowerCase ''/d/sub/m.pak'') ''.pak''
   \<and> map_option (\<lambda>(r, evs). (r, zipped evs)) (compressToPak leftoverWorld ''/d'' ''/d/m.pak'')
       = Some (Inr (), [''a.txt'', ''sub/b.xml''])"
  using enumeration_excludes_paks [of "''/d''" leftoverTree leftoverWorld "''/d/m.pak''"]
  by (simp add: leftoverTree_list)
    (simp add: leftoverWorld_def leftoverTree_def exampleWorld_def run_defs pakLoop.simps
      digits.simps)

section \<open>The empty directory\<close>

text \<open>
  Claim C6: when the enumeration of the source directory is empty, \<^verbatim>\<open>compressToPak\<close>
  ends in \<^verbatim>\<open>process.exit(1)\<close> after one error line; the run has no other event, so no
  tool was called and no archive written.
\<close>

theorem empty_enumeration_is_fatal:
  "buildFileList dir (dataTree w) = [] \<Longrightarrow>
   compressToPak w dir out
     = Some (Inl (ProcessExit 1),
             [Err (''ERROR: No files found in '' @ sq @ dir @ sq @ '' to pack.'')])"
  by (simp add: compressToPak_def exitWith_def)

theorem empty_enumeration_is_fatal_witness:
  "buildFileList ''/d'' (dataTree (exampleWorld\<lparr>dataTree := barrenTree\<rparr>)) = []
   \<and> compressToPak (exampleWorld\<lparr>dataTree := barrenTree\<rparr>) ''/d'' ''/d/m.pak''
       = Some (Inl (ProcessExit 1),
               [Err (''ERROR: No files found in '' @ sq @ ''/d'' @ sq @ '' to pack.'')])"
proof -
  have empty: "buildFileList ''/d'' (dataTree (exampleWorld\<lparr>dataTree := barrenTree\<rparr>)) = []"
    by (simp add: barrenTree_def join_def endsWith_def toLowerCase_def lowerChar_def)
  from empty_enumeration_is_fatal [OF empty] empty show ?thesis
    by simp
qed

section \<open>The command line\<close>

text \<open>
  Claim C10: when \<^verbatim>\<open>--help\<close> is among the arguments, the script prints the usage text
  and exits with code 0, whatever the other arguments are: the values of \<^verbatim>\<open>--env\<close>
  and \<^verbatim>\<open>--version\<close> are validated only after that.
\<close>

theorem help_exits_zero_before_validation:
  "''--help'' \<in> set (args w) \<Longrightarrow> script w = Some (Inl (ProcessExit 0), [Log usage])"
  by (simp add: script_def main_def isHelpRequested_def exitWith_def)

theorem help_exits_zero_before_validation_witness:
  "environment (exampleWorld\<lparr>args := [''--env=bogus'', ''--version=nope'', ''--help'']\<rparr>)
     \<notin> set validEnvironments
   \<and> version (exampleWorld\<lparr>args := [''--env=bogus'', ''--version=nope'', ''--help'']\<rparr>)
     \<notin> set validVersions
   \<and> script (exampleWorld\<lparr>args := [''--env=bogus'', ''--version=nope'', ''--help'']\<rparr>)
     = Some (Inl (ProcessExit 0), [Log usage])"
  using help_exits_zero_before_validation
    [of "exampleWorld\<lparr>args := [''--env=bogus'', ''--version=nope'', ''--help'']\<rparr>"]
  by (simp add: environment_def version_def flagValue_def validEnvironments_def
      validVersions_def exampleWorld_def)

lemma steps_ignore_flags:
  "cleanBuildDirectory (w\<lparr>args := a, envMODE := m, envVERSION := v\<rparr>) = cleanBuildDirectory w"
  "prepareBuild (w\<lparr>args := a, envMODE := m, envVERSION := v\<rparr>) = prepareBuild w"
  "packData (w\<lparr>args := a, envMODE := m, envVERSION := v\<rparr>) i = packData w i"
  "packMod (w\<lparr>args := a, envMODE := m, envVERSION := v\<rparr>) mv n = packMod w mv n"
  by (simp_all add: cleanBuildDirectory_def prepareBuild_def packData_def packMod_def
      compressToPak_def removeNonProductionFiles_def temporaryBuildDirectory_def
      sourceDirectory_def Let_def)

lemma main_ignores_flags:
  "main env ver help (w\<lparr>args := a, envMODE := m, envVERSION := v\<rparr>) = main env ver help w"
  by (simp add: main_def steps_ignore_flags cong: if_cong option.case_cong)

lemma andThen_emit:
  "andThen (emit [l]) m = (case m of None \<Rightarrow> None | Some (r, evs) \<Rightarrow> Some (r, l # evs))"
  by (simp add: andThen_def emit_def split: option.splits)

lemma main_prod_dev:
  "(main ''prod'' ver help w = None \<and> main ''dev'' ver help w = None)
   \<or> (\<exists>r l1 l2 evs. main ''prod'' ver help w = Some (r, l1 # evs)
         \<and> main ''dev'' ver help w = Some (r, l2 # evs) \<and> isConsole l1 \<and> isConsole l2)"
  by (auto simp: main_def exitWith_def validEnvironments_def Let_def andThen_emit
      split: option.splits)

lemma actions_console: "isConsole l \<Longrightarrow> actions (l # evs) = actions evs"
  by (simp add: actions_def)

section \<open>The manifest\<close>

lemma firstTruthy_single: "firstTruthy [v] [] = [] \<longleftrightarrow> v = None \<or> v = Some []"
  by (cases v) auto

lemma firstTruthy_single_Some: "firstTruthy [v] [] \<noteq> [] \<Longrightarrow> v = Some (firstTruthy [v] [])"
  by (cases v) (auto split: if_splits)

text \<open>
  Claim C7: when the manifest exists and one of its three tags has no match, the run
  is a single console line followed by \<^verbatim>\<open>process.exit\<close>, so nothing has touched the
  staging directory; and in a build (no \<^verbatim>\<open>--help\<close>, valid environment and version) it
  is \<^verbatim>\<open>process.exit(1)\<close> after the one fixed line, which is the same whichever tag is
  missing.
\<close>

theorem incomplete_manifest_is_fatal:
  assumes "manifest w = Some content"
    and "execTag ''<modid>'' ''</modid>'' content = None
         \<or> execTag ''<version>'' ''</version>'' content = None
         \<or> execTag ''<name>'' ''</name>'' content = None"
  shows "(\<exists>code line. script w = Some (Inl (ProcessExit code), [line]) \<and> isConsole line)
       \<and> (\<not> isHelpRequested w \<and> environment w \<in> set validEnvironments
            \<and> version w \<in> set validVersions
          \<longrightarrow> script w
              = Some (Inl (ProcessExit 1),
                      [Err ''ERROR: Missing required fields in mod.manifest.'']))"
proof -
  have missing:
    "firstTruthy [execTag ''<modid>'' ''</modid>'' content] [] = []
     \<or> firstTruthy [execTag ''<version>'' ''</version>'' content] [] = []
     \<or> firstTruthy [execTag ''<name>'' ''</name>'' content] [] = []"
    using assms(2) by (auto simp: firstTruthy_single)
  show ?thesis
    using assms(1) missing
    by (auto simp: script_def main_def exitWith_def Let_def)
qed

theorem incomplete_manifest_is_fatal_witness:
  "manifest namelessWorld = Some ''<modid>m</modid><version>1</version>''
   \<and> execTag ''<name>'' ''</name>'' ''<modid>m</modid><version>1</version>'' = None
   \<and> \<not> isHelpRequested namelessWorld
   \<and> environment namelessWorld \<in> set validEnvironments
   \<and> version namelessWorld \<in> set validVersions
   \<and> script namelessWorld
       = Some (Inl (ProcessExit 1), [Err ''ERROR: Missing required fields in mod.manifest.''])"
proof -
  have m: "manifest namelessWorld = Some ''<modid>m</modid><version>1</version>''"
    by (simp add: namelessWorld_def)
  have e: "execTag ''<name>'' ''</name>'' ''<modid>m</modid><version>1</version>'' = None"
    by simp
  have f: "\<not> isHelpRequested namelessWorld \<and> environment namelessWorld \<in> set validEnvironments
           \<and> version namelessWorld \<in> set validVersions"
    by (simp add: namelessWorld_def exampleWorld_def isHelpRequested_def environment_def
        version_def flagValue_def validEnvironments_def validVersions_def)
  from incomplete_manifest_is_fatal [OF m] e f m show ?thesis
    by blast
qed

section \<open>What the packer does\<close>

lemma filesToPack_stops:
  "k < length xs \<Longrightarrow> sizeOf (xs ! k) > maxSizeBytes
   \<Longrightarrow> length (filesToPack sizeOf dir xs acc) \<le> k"
proof (induction xs arbitrary: k acc)
  case Nil
  then show ?case by simp
next
  case (Cons x xs)
  show ?case
  proof (cases k)
    case 0
    with Cons.prems show ?thesis by (simp add: Let_def)
  next
    case (Suc j)
    with Cons.prems Cons.IH [of j] show ?thesis by (simp add: Let_def)
  qed
qed

text \<open>
  Once a file larger than the limit lies ahead, the loop cannot end normally: the inner
  loop never steps over that file, so \<^verbatim>\<open>fileIdx\<close> stays below \<^verbatim>\<open>totalFiles\<close>.
\<close>

lemma pakLoop_stuck:
  assumes "pakLoop sizeOf tool dir out fl i n = Some y"
  shows "(\<exists>j. i \<le> j \<and> j < length fl \<and> sizeOf (fl ! j) > maxSizeBytes) \<longrightarrow> fst y \<noteq> Inr ()"
proof (rule pakLoop.raw_induct
    [where P = "\<lambda>sizeOf tool dir out fl i n y.
       (\<exists>j. i \<le> j \<and> j < length fl \<and> sizeOf (fl ! j) > maxSizeBytes) \<longrightarrow> fst y \<noteq> Inr ()",
     OF _ assms], goal_cases)
  case (1 f sizeOf tool dir out fl i n y)
  show ?case
  proof
    assume "\<exists>j. i \<le> j \<and> j < length fl \<and> sizeOf (fl ! j) > maxSizeBytes"
    then obtain j where j: "i \<le> j" "j < length fl" "sizeOf (fl ! j) > maxSizeBytes"
      by blast
    define files where "files = filesToPack sizeOf dir (drop i fl) 0"
    have "j - i < length (drop i fl)" "sizeOf (drop i fl ! (j - i)) > maxSizeBytes"
      using j by auto
    then have "length files \<le> j - i"
      unfolding files_def by (rule filesToPack_stops)
    then have le: "i + length files \<le> j"
      using j by simp
    then have again:
      "\<exists>j. i + length files \<le> j \<and> j < length fl \<and> sizeOf (fl ! j) > maxSizeBytes"
      using j by blast
    from 1(2) j le again show "fst y \<noteq> Inr ()"
      unfolding files_def [symmetric] Let_def
      by (auto simp: Option.bind_eq_Some_conv
          split: if_splits tool_result.splits dest!: 1(1))
  qed
qed

text \<open>
  Claim C3: three files of one gigabyte each, with a working zip tool, end in two
  archives. The first holds the first two files (two gigabytes do not exceed the
  limit) and is renamed to part 0; the second holds the third file and is part 1.
\<close>

theorem three_files_of_one_gigabyte:
  assumes "buildFileList dir (dataTree w) = [file1, file2, file3]"
    and "statSize w file1 = 1024 * 1024 * 1024"
    and "statSize w file2 = 1024 * 1024 * 1024"
    and "statSize w file3 = 1024 * 1024 * 1024"
    and "zipTool w out [relative dir file1, relative dir file2] = Returned True"
    and "zipTool w (partPath out 1) [relative dir file3] = Returned True"
  shows "\<exists>evs. compressToPak w dir out = Some (Inr (), evs)
           \<and> paks evs [] = [(partPath out 0, [relative dir file1, relative dir file2]),
                             (partPath out 1, [relative dir file3])]"
  using assms
  by (simp add: compressToPak_def pakLoop.simps maxSizeBytes_def Let_def)

theorem three_files_of_one_gigabyte_witness:
  "buildFileList ''/d'' (dataTree exampleWorld) = [''/d/a'', ''/d/b'', ''/d/c'']
   \<and> statSize exampleWorld ''/d/a'' + statSize exampleWorld ''/d/b'' = maxSizeBytes
   \<and> (\<exists>evs. compressToPak exampleWorld ''/d'' ''/d/m.pak'' = Some (Inr (), evs)
         \<and> paks evs [] = [(''/d/m-part0.pak'', [''a'', ''b'']), (''/d/m-part1.pak'', [''c''])])"
proof -
  have l: "buildFileList ''/d'' (dataTree exampleWorld) = [''/d/a'', ''/d/b'', ''/d/c'']"
    by (simp add: exampleWorld_def join_def endsWith_def toLowerCase_def lowerChar_def)
  have s: "statSize exampleWorld ''/d/a'' = 1024 * 1024 * 1024"
    "statSize exampleWorld ''/d/b'' = 1024 * 1024 * 1024"
    "statSize exampleWorld ''/d/c'' = 1024 * 1024 * 1024"
    by (simp_all add: exampleWorld_def)
  have z: "zipTool exampleWorld ''/d/m.pak'' [relative ''/d'' ''/d/a'', relative ''/d'' ''/d/b'']
           = Returned True"
    "zipTool exampleWorld (partPath ''/d/m.pak'' 1) [relative ''/d'' ''/d/c''] = Returned True"
    by (simp_all add: exampleWorld_def)
  have n: "partPath ''/d/m.pak'' 0 = ''/d/m-part0.pak''"
    "partPath ''/d/m.pak'' (Suc 0) = ''/d/m-part1.pak''"
    "relative ''/d'' ''/d/a'' = ''a''" "relative ''/d'' ''/d/b'' = ''b''"
    "relative ''/d'' ''/d/c'' = ''c''"
    by (simp_all add: partPath_def digits.simps relative_def)
  from three_files_of_one_gigabyte [OF l s z] l s show ?thesis
    by (simp add: n maxSizeBytes_def)
qed

text \<open>
  Claim C1, on a file larger than the limit: the claim asks that the packer ends and
  gives the file an archive of its own. The code does not: when an enumerated file is
  larger than \<^verbatim>\<open>maxSizeBytes\<close>, \<^verbatim>\<open>compressToPak\<close> never ends normally, whatever the
  zip tool does. It fails, or it runs forever.
\<close>

theorem oversized_file_never_packed:
  assumes "f \<in> set (buildFileList dir (dataTree w))"
    and "statSize w f > maxSizeBytes"
  shows "compressToPak w dir out \<noteq> Some (Inr (), evs)"
proof
  assume fin: "compressToPak w dir out = Some (Inr (), evs)"
  from assms(1) obtain j where j: "j < length (buildFileList dir (dataTree w))"
      "buildFileList dir (dataTree w) ! j = f"
    by (auto simp: in_set_conv_nth)
  with assms(2) have
    "\<exists>j. 0 \<le> j \<and> j < length (buildFileList dir (dataTree w))
         \<and> statSize w (buildFileList dir (dataTree w) ! j) > maxSizeBytes"
    by auto
  moreover from fin assms(1) have
    "pakLoop (statSize w) (zipTool w) dir out (buildFileList dir (dataTree w)) 0 0
     = Some (Inr (), evs)"
    by (auto simp: compressToPak_def Let_def exitWith_def split: if_splits)
  ultimately show False
    using pakLoop_stuck by fastforce
qed

text \<open>
  Claim C2, on the parts as a partition of the file list: with a file of one gigabyte
  followed by one of three, the first archive takes the small file, and the second
  call of the zip tool is given no file at all. The large file reaches no archive; the
  run ends in the exception of the tool.
\<close>

theorem oversized_file_leaves_empty_part:
  "compressToPak mixedWorld ''/d'' ''/d/m.pak''
   = Some (Inl UncaughtException,
           [Log (''Creating pak part 0: zip -r -9 -X '' @ dq @ ''/d/m.pak'' @ dq @ '' ''
                 @ dq @ ''a'' @ dq),
            Zip ''/d'' ''/d/m.pak'' [''a''],
            Rename ''/d/m.pak'' ''/d/m-part0.pak'',
            Log (''Creating pak part 1: zip -r -9 -X '' @ dq @ ''/d/m-part1.pak'' @ dq @ '' ''),
            Zip ''/d'' ''/d/m-part1.pak'' []])"
  by (simp add: mixedWorld_def exampleWorld_def run_defs pakLoop.simps digits.simps)

text \<open>
  Claim C4, on the names of the parts: the suffix is put in place of the first
  \<^verbatim>\<open>.pak\<close> of the whole output path. For a mod identifier that contains \<^verbatim>\<open>.pak\<close> the
  two archives of a build end up as \<^verbatim>\<open>a-part0.pakb.pak\<close> and \<^verbatim>\<open>a-part1.pakb.pak\<close>:
  the suffix is not before the extension.
\<close>

theorem suffix_lands_inside_the_name:
  "map_option (\<lambda>(r, evs). (r, paks evs [])) (script dottedWorld)
   = Some (Inr (),
           [(''/r/temp_build/Data/a-part0.pakb.pak'', [''a'', ''b'']),
            (''/r/temp_build/Data/a-part1.pakb.pak'', [''c''])])"
  by (simp add: dottedWorld_def exampleWorld_def run_defs pakLoop.simps digits.simps)

subsection \<open>With a working tool the loop cannot fail\<close>

lemma pakLoop_tool_never_fails:
  assumes "pakLoop sizeOf tool dir out fl i n = Some y"
  shows "(\<forall>p fs. tool p fs = Returned True) \<longrightarrow> fst y = Inr ()"
proof (rule pakLoop.raw_induct
    [where P = "\<lambda>sizeOf tool dir out fl i n y.
       (\<forall>p fs. tool p fs = Returned True) \<longrightarrow> fst y = Inr ()",
     OF _ assms], goal_cases)
  case (1 f sizeOf tool dir out fl i n y)
  show ?case
  proof
    assume ok: "\<forall>p fs. tool p fs = Returned True"
    with 1(2) show "fst y = Inr ()"
      unfolding Let_def
      by (auto simp: Option.bind_eq_Some_conv split: if_splits dest!: 1(1))
  qed
qed

text \<open>
  So with a zip tool that always returns and leaves its archive, a file larger than the
  limit makes the packer run forever.
\<close>

lemma oversized_file_loops_forever:
  assumes "f \<in> set (buildFileList dir (dataTree w))"
    and "statSize w f > maxSizeBytes"
    and "\<forall>p fs. zipTool w p fs = Returned True"
  shows "compressToPak w dir out = None"
proof (cases "compressToPak w dir out")
  case None
  then show ?thesis .
next
  case (Some y)
  with assms(1) have loop:
    "pakLoop (statSize w) (zipTool w) dir out (buildFileList dir (dataTree w)) 0 0 = Some y"
    by (auto simp: compressToPak_def Let_def split: if_splits)
  from assms(1) obtain j where "j < length (buildFileList dir (dataTree w))"
      "buildFileList dir (dataTree w) ! j = f"
    by (auto simp: in_set_conv_nth)
  with assms(2) have
    "\<exists>j. 0 \<le> j \<and> j < length (buildFileList dir (dataTree w))
         \<and> statSize w (buildFileList dir (dataTree w) ! j) > maxSizeBytes"
    by auto
  with pakLoop_stuck [OF loop] have "fst y \<noteq> Inr ()"
    by blast
  moreover from pakLoop_tool_never_fails [OF loop] assms(3) have "fst y = Inr ()"
    by blast
  ultimately show ?thesis
    by contradiction
qed

text \<open>
  The file of three gigabytes in the example: no normal end, and with the working tool
  of that world no end at all.
\<close>

theorem oversized_file_never_packed_witness:
  "''/d/big.bin'' \<in> set (buildFileList ''/d'' (dataTree oversizedWorld))
   \<and> statSize oversizedWorld ''/d/big.bin'' > maxSizeBytes
   \<and> compressToPak oversizedWorld ''/d'' ''/d/m.pak''
       \<noteq> Some (Inr (), [Log (''Creating pak part 0: '' @ zipCommand ''/d/m.pak'' [''big.bin'']),
                          Zip ''/d'' ''/d/m.pak'' [''big.bin'']])
   \<and> compressToPak oversizedWorld ''/d'' ''/d/m.pak'' = None"
proof -
  have a: "''/d/big.bin'' \<in> set (buildFileList ''/d'' (dataTree oversizedWorld))"
    by (simp add: oversizedWorld_def exampleWorld_def join_def endsWith_def toLowerCase_def
        lowerChar_def)
  have b: "statSize oversizedWorld ''/d/big.bin'' > maxSizeBytes"
    by (simp add: oversizedWorld_def exampleWorld_def maxSizeBytes_def)
  have c: "\<forall>p fs. zipTool oversizedWorld p fs = Returned True"
    by (simp add: oversizedWorld_def exampleWorld_def)
  from oversized_file_never_packed [OF a b] oversized_file_loops_forever [OF a b c] a b
  show ?thesis
    by blast
qed

subsection \<open>When every file fits\<close>

text \<open>
  The packer on the inputs it handles: when no file is larger than the limit and the
  zip tool works, the run ends normally; the archives at its end hold consecutive,
  non-empty runs of the file list, each within the limit, which together are the whole
  list; and their paths are the plain output path for one archive, the part paths
  from 0 on for more.
\<close>

lemma filesToPack_take:
  "filesToPack sizeOf dir xs acc
   = map (relative dir) (take (length (filesToPack sizeOf dir xs acc)) xs)"
  by (induction xs arbitrary: acc) (auto simp: Let_def)

lemma filesToPack_fits:
  "acc \<le> maxSizeBytes \<Longrightarrow>
   acc + sum_list (map sizeOf (take (length (filesToPack sizeOf dir xs acc)) xs)) \<le> maxSizeBytes"
proof (induction xs arbitrary: acc)
  case Nil
  then show ?case by simp
next
  case (Cons x xs)
  show ?case
  proof (cases "acc + sizeOf x > maxSizeBytes")
    case True
    with Cons.prems show ?thesis by (simp add: Let_def)
  next
    case False
    then have "acc + sizeOf x \<le> maxSizeBytes" by simp
    from Cons.IH [OF this] False show ?thesis by (simp add: Let_def add.assoc)
  qed
qed

lemma filesToPack_progress:
  "xs \<noteq> [] \<Longrightarrow> acc + sizeOf (hd xs) \<le> maxSizeBytes \<Longrightarrow> filesToPack sizeOf dir xs acc \<noteq> []"
  by (cases xs) (auto simp: Let_def)

lemma filesToPack_length: "length (filesToPack sizeOf dir xs acc) \<le> length xs"
  by (induction xs arbitrary: acc) (auto simp: Let_def)

lemma paks_append: "paks (xs @ ys) acc = paks ys (paks xs acc)"
  by (induction xs acc rule: paks.induct) auto

lemma pakLoop_finished:
  "length fl \<le> i \<Longrightarrow> pakLoop sizeOf tool dir out fl i n = Some (Inr (), [])"
  by (subst pakLoop.simps) simp

lemma pakLoop_later_parts:
  assumes fit: "\<forall>f \<in> set fl. sizeOf f \<le> maxSizeBytes"
    and tool: "\<forall>p fs. tool p fs = Returned True"
    and n: "0 < n"
  shows "\<exists>evs parts.
      pakLoop sizeOf tool dir out fl i n = Some (Inr (), evs)
    \<and> concat parts = drop i fl
    \<and> (\<forall>part \<in> set parts. part \<noteq> [] \<and> sum_list (map sizeOf part) \<le> maxSizeBytes)
    \<and> (\<forall>acc. paks evs acc
             = acc @ zip (map (partPath out) [n..<n + length parts])
                         (map (map (relative dir)) parts))"
  using n
proof (induction "length fl - i" arbitrary: i n rule: less_induct)
  case less
  show ?case
  proof (cases "i < length fl")
    case False
    then have "pakLoop sizeOf tool dir out fl i n = Some (Inr (), [])"
      by (simp add: pakLoop_finished)
    with False show ?thesis
      by (intro exI [of _ "[]"]) simp
  next
    case True
    define files where "files = filesToPack sizeOf dir (drop i fl) 0"
    define part where "part = take (length files) (drop i fl)"
    have hd_fits: "sizeOf (hd (drop i fl)) \<le> maxSizeBytes"
      using True fit by (simp add: hd_drop_conv_nth)
    have nonempty: "files \<noteq> []"
      unfolding files_def using True hd_fits by (intro filesToPack_progress) auto
    have files_part: "files = map (relative dir) part"
      unfolding part_def files_def by (rule filesToPack_take)
    have part_fits: "sum_list (map sizeOf part) \<le> maxSizeBytes"
      using filesToPack_fits [of 0 sizeOf dir "drop i fl"] by (simp add: part_def files_def)
    have len: "i + length files \<le> length fl"
      using filesToPack_length [of sizeOf dir "drop i fl" 0] True by (simp add: files_def)
    have part_ne: "part \<noteq> []"
      using nonempty files_part by auto
    have split: "part @ drop (i + length files) fl = drop i fl"
      unfolding part_def by (metis add.commute append_take_drop_id drop_drop)
    show ?thesis
    proof (cases "i + length files < length fl")
      case more: True
      have "length fl - (i + length files) < length fl - i"
        using nonempty True by (cases files) auto
      from less.hyps [OF this, of "n + 1"] obtain evs' parts' where
        rest: "pakLoop sizeOf tool dir out fl (i + length files) (n + 1) = Some (Inr (), evs')"
          "concat parts' = drop (i + length files) fl"
          "\<forall>part \<in> set parts'. part \<noteq> [] \<and> sum_list (map sizeOf part) \<le> maxSizeBytes"
          "\<forall>acc. paks evs' acc
               = acc @ zip (map (partPath out) [n + 1..<n + 1 + length parts'])
                           (map (map (relative dir)) parts')"
        by auto
      have run: "pakLoop sizeOf tool dir out fl i n
          = Some (Inr (),
                  [Log (''Creating pak part '' @ digits n @ '': ''
                        @ zipCommand (partPath out n) files),
                   Zip dir (partPath out n) files] @ evs')"
        using True more tool less.prems rest(1)
        by (subst pakLoop.simps) (simp add: files_def [symmetric] Let_def)
      have names: "[n..<Suc (n + length parts')] = n # [Suc n..<Suc (n + length parts')]"
        by (rule upt_conv_Cons) simp
      show ?thesis
        apply (intro exI [of _ "[Log (''Creating pak part '' @ digits n @ '': ''
                        @ zipCommand (partPath out n) files),
                   Zip dir (partPath out n) files] @ evs'"] exI [of _ "part # parts'"])
        using run rest(2,3,4) split part_ne part_fits files_part
        by (simp add: names del: upt_Suc)
    next
      case last: False
      with len have eq: "i + length files = length fl" by simp
      have run: "pakLoop sizeOf tool dir out fl i n
          = Some (Inr (),
                  [Log (''Creating pak part '' @ digits n @ '': ''
                        @ zipCommand (partPath out n) files),
                   Zip dir (partPath out n) files])"
        using True eq tool less.prems
        by (subst pakLoop.simps) (simp add: files_def [symmetric] Let_def pakLoop_finished)
      show ?thesis
        apply (intro exI [of _ "[Log (''Creating pak part '' @ digits n @ '': ''
                        @ zipCommand (partPath out n) files),
                   Zip dir (partPath out n) files]"] exI [of _ "[part]"])
        using run split eq part_ne part_fits files_part
        by simp
    qed
  qed
qed


lemma packer_partitions_when_files_fit:
  assumes ne: "buildFileList dir (dataTree w) \<noteq> []"
    and fit: "\<forall>f \<in> set (buildFileList dir (dataTree w)). statSize w f \<le> maxSizeBytes"
    and tool: "\<forall>p fs. zipTool w p fs = Returned True"
  shows "\<exists>evs parts.
      compressToPak w dir out = Some (Inr (), evs)
    \<and> concat parts = buildFileList dir (dataTree w)
    \<and> (\<forall>part \<in> set parts. part \<noteq> [] \<and> sum_list (map (statSize w) part) \<le> maxSizeBytes)
    \<and> paks evs []
        = zip (if length parts = 1 then [out] else map (partPath out) [0..<length parts])
              (map (map (relative dir)) parts)"
proof -
  define fl where "fl = buildFileList dir (dataTree w)"
  define files where "files = filesToPack (statSize w) dir fl 0"
  define part where "part = take (length files) fl"
  have fl: "0 < length fl"
    using ne by (simp add: fl_def)
  have hd_fits: "statSize w (hd fl) \<le> maxSizeBytes"
    using fl fit by (cases fl) (auto simp: fl_def)
  have nonempty: "files \<noteq> []"
    unfolding files_def using fl hd_fits by (intro filesToPack_progress) auto
  have files_part: "files = map (relative dir) part"
    unfolding part_def files_def by (rule filesToPack_take)
  have part_fits: "sum_list (map (statSize w) part) \<le> maxSizeBytes"
    using filesToPack_fits [of 0 "statSize w" dir fl] by (simp add: part_def files_def)
  have len: "length files \<le> length fl"
    using filesToPack_length [of "statSize w" dir fl 0] by (simp add: files_def)
  have part_ne: "part \<noteq> []"
    using nonempty files_part by auto
  have split: "part @ drop (length files) fl = fl"
    unfolding part_def by simp
  have start: "compressToPak w dir out = pakLoop (statSize w) (zipTool w) dir out fl 0 0"
    using ne by (simp add: compressToPak_def fl_def)
  show ?thesis
  proof (cases "length files < length fl")
    case more: True
    from pakLoop_later_parts [of fl "statSize w" "zipTool w" 1 dir out "length files"] fit tool
    obtain evs' parts' where
      rest: "pakLoop (statSize w) (zipTool w) dir out fl (length files) 1 = Some (Inr (), evs')"
        "concat parts' = drop (length files) fl"
        "\<forall>part \<in> set parts'. part \<noteq> [] \<and> sum_list (map (statSize w) part) \<le> maxSizeBytes"
        "\<forall>acc. paks evs' acc
             = acc @ zip (map (partPath out) [1..<1 + length parts'])
                         (map (map (relative dir)) parts')"
      unfolding fl_def by auto
    from rest(2) more have parts'_ne: "parts' \<noteq> []"
      by auto
    have run: "compressToPak w dir out
        = Some (Inr (),
                [Log (''Creating pak part '' @ digits 0 @ '': '' @ zipCommand out files),
                 Zip dir out files, Rename out (partPath out 0)] @ evs')"
      unfolding start using fl more tool rest(1)
      by (subst pakLoop.simps) (simp add: files_def [symmetric] Let_def)
    have names: "[0..<Suc (length parts')] = 0 # [Suc 0..<Suc (length parts')]"
      by (rule upt_conv_Cons) simp
    show ?thesis
      apply (intro exI [of _ "[Log (''Creating pak part '' @ digits 0 @ '': ''
                      @ zipCommand out files),
                 Zip dir out files, Rename out (partPath out 0)] @ evs'"]
          exI [of _ "part # parts'"])
      using run rest(2,3,4) split part_ne part_fits files_part parts'_ne
      by (simp add: names fl_def [symmetric] del: upt_Suc)
  next
    case last: False
    with len have eq: "length files = length fl" by simp
    have run: "compressToPak w dir out
        = Some (Inr (),
                [Log (''Creating pak part '' @ digits 0 @ '': '' @ zipCommand out files),
                 Zip dir out files])"
      unfolding start using fl eq tool
      by (subst pakLoop.simps) (simp add: files_def [symmetric] Let_def pakLoop_finished)
    show ?thesis
      apply (intro exI [of _ "[Log (''Creating pak part '' @ digits 0 @ '': ''
                      @ zipCommand out files),
                 Zip dir out files]"] exI [of _ "[part]"])
      using run split eq part_ne part_fits files_part
      by (simp add: fl_def [symmetric])
  qed
qed

lemma replace_first_at_end:
  "\<forall>i < length base. \<not> startsWith (drop i (base @ ''.pak'')) ''.pak''
   \<Longrightarrow> replace (base @ ''.pak'') ''.pak'' rep = base @ rep"
proof (induction base)
  case Nil
  then show ?case by simp
next
  case (Cons c cs)
  from Cons.prems have first: "\<not> startsWith (c # cs @ ''.pak'') ''.pak''"
    by force
  have "\<forall>i < length cs. \<not> startsWith (drop i (cs @ ''.pak'')) ''.pak''"
  proof (intro allI impI)
    fix i
    assume "i < length cs"
    with Cons.prems have "\<not> startsWith (drop (Suc i) ((c # cs) @ ''.pak'')) ''.pak''"
      by (metis Suc_less_eq length_Cons)
    then show "\<not> startsWith (drop i (cs @ ''.pak'')) ''.pak''"
      by simp
  qed
  from Cons.IH [OF this] first show ?case
    by auto
qed

lemma partPath_at_extension:
  "\<forall>i < length base. \<not> startsWith (drop i (base @ ''.pak'')) ''.pak''
   \<Longrightarrow> partPath (base @ ''.pak'') n = base @ ''-part'' @ digits n @ ''.pak''"
  by (simp add: partPath_def replace_first_at_end)

section \<open>The final bundle\<close>

lemma bundles_append: "bundles (xs @ ys) = bundles xs @ bundles ys"
  by (induction xs rule: bundles.induct) auto

lemma pakLoop_no_bundle:
  assumes "pakLoop sizeOf tool dir out fl i n = Some y"
  shows "bundles (snd y) = []"
proof (rule pakLoop.raw_induct
    [where P = "\<lambda>sizeOf tool dir out fl i n y. bundles (snd y) = []", OF _ assms], goal_cases)
  case (1 f sizeOf tool dir out fl i n y)
  from 1(2) show ?case
    by (auto simp: Let_def bundles_append Option.bind_eq_Some_conv
        split: if_splits tool_result.splits dest: 1(1))
qed

lemma andThen_ok:
  "andThen m k = Some (Inr (), evs)
   \<longleftrightarrow> (\<exists>e1 e2. m = Some (Inr (), e1) \<and> k = Some (Inr (), e2) \<and> evs = e1 @ e2)"
  by (auto simp: andThen_def split: option.splits sum.splits prod.splits)

lemma compressToPak_no_bundle:
  "compressToPak w dir out = Some (r, evs) \<Longrightarrow> bundles evs = []"
  using pakLoop_no_bundle [of "statSize w" "zipTool w" dir out _ 0 0 "(r, evs)"]
  by (auto simp: compressToPak_def exitWith_def Let_def split: if_splits)

lemma packData_no_bundle:
  "packData w modIdentifier = Some (Inr (), evs) \<Longrightarrow> bundles evs = []"
  by (auto simp: packData_def Let_def andThen_ok removeNonProductionFiles_def emit_def
      bundles_append dest: compressToPak_no_bundle)

lemma packMod_ok:
  assumes "packMod w modVersion outputFileName = Some (Inr (), evs)"
  shows "\<exists>line post.
      evs = (if existsSync w (join (rootDirectory w) (outputFileName @ ''_'' @ modVersion @ ''.zip''))
             then [RmFile (join (rootDirectory w) (outputFileName @ ''_'' @ modVersion @ ''.zip''))]
             else [])
            @ [Log line,
               SevenZip (join (rootDirectory w) (outputFileName @ ''_'' @ modVersion @ ''.zip''))
                 (temporaryBuildDirectory w @ ''/*'')]
            @ post
      \<and> bundles post = []"
  using assms by (auto simp: packMod_def Let_def emit_def split: if_splits)

text \<open>
  Claim C5, as amended: a build that ends normally calls the archival tool exactly
  once, on the archive \<^verbatim>\<open><name>_<version flag>_<manifest version>.zip\<close> under the
  project root, where the name and the manifest version are the manifest's fields and
  the version flag is the value of \<^verbatim>\<open>--version\<close>; when a file of that path exists
  it is removed just before the tool is announced and run.
\<close>

theorem final_archive_name:
  assumes "script w = Some (Inr (), evs)"
  shows "\<exists>content modName modVersion pre line post.
      manifest w = Some content
    \<and> execTag ''<name>'' ''</name>'' content = Some modName
    \<and> execTag ''<version>'' ''</version>'' content = Some modVersion
    \<and> evs = pre
        @ (if existsSync w
                (join (rootDirectory w) (modName @ ''_'' @ version w @ ''_'' @ modVersion @ ''.zip''))
           then [RmFile
                  (join (rootDirectory w) (modName @ ''_'' @ version w @ ''_'' @ modVersion @ ''.zip''))]
           else [])
        @ [Log line,
           SevenZip
             (join (rootDirectory w) (modName @ ''_'' @ version w @ ''_'' @ modVersion @ ''.zip''))
             (temporaryBuildDirectory w @ ''/*'')]
        @ post
    \<and> bundles pre = [] \<and> bundles post = []"
proof -
  from assms obtain content where content: "manifest w = Some content"
    by (auto simp: script_def main_def exitWith_def split: if_splits option.splits)
  define modIdentifier where
    "modIdentifier = firstTruthy [execTag ''<modid>'' ''</modid>'' content] []"
  define modVersion where
    "modVersion = firstTruthy [execTag ''<version>'' ''</version>'' content] []"
  define modName where "modName = firstTruthy [execTag ''<name>'' ''</name>'' content] []"
  from assms content have fields: "modVersion \<noteq> []" "modName \<noteq> []"
    by (auto simp: script_def main_def exitWith_def Let_def modVersion_def modName_def
        split: if_splits)
  from assms content obtain banner where
    "andThen (emit [Log banner])
       (andThen (cleanBuildDirectory w)
       (andThen (prepareBuild w)
       (andThen (packData w modIdentifier)
                (packMod w modVersion (modName @ ''_'' @ version w)))))
     = Some (Inr (), evs)"
    by (auto simp: script_def main_def exitWith_def emit_def Let_def modIdentifier_def
        modVersion_def modName_def validEnvironments_def split: if_splits)
  then obtain e1 e2 e3 e4 e5 where
    parts: "evs = e1 @ e2 @ e3 @ e4 @ e5"
      "emit [Log banner] = Some (Inr (), e1)"
      "cleanBuildDirectory w = Some (Inr (), e2)"
      "prepareBuild w = Some (Inr (), e3)"
      "packData w modIdentifier = Some (Inr (), e4)"
      "packMod w modVersion (modName @ ''_'' @ version w) = Some (Inr (), e5)"
    unfolding andThen_ok by blast
  from parts(2-5) have pre: "bundles (e1 @ e2 @ e3 @ e4) = []"
    by (auto simp: emit_def cleanBuildDirectory_def prepareBuild_def bundles_append
        dest: packData_no_bundle)
  from packMod_ok [OF parts(6)] obtain line post where
    e5: "e5 = (if existsSync w
                    (join (rootDirectory w)
                       ((modName @ ''_'' @ version w) @ ''_'' @ modVersion @ ''.zip''))
               then [RmFile
                      (join (rootDirectory w)
                         ((modName @ ''_'' @ version w) @ ''_'' @ modVersion @ ''.zip''))]
               else [])
              @ [Log line,
                 SevenZip
                   (join (rootDirectory w)
                      ((modName @ ''_'' @ version w) @ ''_'' @ modVersion @ ''.zip''))
                   (temporaryBuildDirectory w @ ''/*'')]
              @ post"
      and post: "bundles post = []"
    by blast
  have name: "execTag ''<name>'' ''</name>'' content = Some modName"
    using fields(2) unfolding modName_def by (rule firstTruthy_single_Some)
  have ver: "execTag ''<version>'' ''</version>'' content = Some modVersion"
    using fields(1) unfolding modVersion_def by (rule firstTruthy_single_Some)
  have "evs = (e1 @ e2 @ e3 @ e4) @ e5"
    using parts(1) by simp
  with e5 pre post content name ver show ?thesis
    by (intro exI [of _ content] exI [of _ modName] exI [of _ modVersion]
        exI [of _ "e1 @ e2 @ e3 @ e4"] exI [of _ line] exI [of _ post]) simp
qed

theorem final_archive_name_witness:
  "\<exists>evs pre line post.
      script rebuiltWorld = Some (Inr (), evs)
    \<and> evs = pre @ [RmFile ''/r/N_main_1.zip'', Log line,
                    SevenZip ''/r/N_main_1.zip'' ''/r/temp_build/*''] @ post
    \<and> bundles pre = [] \<and> bundles post = []"
proof -
  have "script rebuiltWorld \<noteq> None" and "fst (the (script rebuiltWorld)) = Inr ()"
    by (simp_all add: rebuiltWorld_def exampleWorld_def run_defs pakLoop.simps digits.simps)
  then have run: "script rebuiltWorld = Some (Inr (), snd (the (script rebuiltWorld)))"
    by (cases "script rebuiltWorld") auto
  have facts: "manifest rebuiltWorld = Some ''<modid>m</modid><version>1</version><name>N</name>''"
    "rootDirectory rebuiltWorld = ''/r''" "version rebuiltWorld = ''main''"
    "existsSync rebuiltWorld ''/r/N_main_1.zip''"
    "temporaryBuildDirectory rebuiltWorld = ''/r/temp_build''"
    by (simp_all add: rebuiltWorld_def exampleWorld_def version_def flagValue_def
        temporaryBuildDirectory_def join_def)
  have tags:
    "execTag ''<name>'' ''</name>'' ''<modid>m</modid><version>1</version><name>N</name>''
     = Some ''N''"
    "execTag ''<version>'' ''</version>'' ''<modid>m</modid><version>1</version><name>N</name>''
     = Some ''1''"
    by (simp_all add: lineTerminator_def)
  from final_archive_name [OF run] facts tags run show ?thesis
    by (auto simp: join_def)
qed

text \<open>
  Claim C5, as stated, fails: the build of the example world ends normally with the one
  bundle \<^verbatim>\<open>N_main_1.zip\<close>, which is neither the name and the manifest version nor
  the name and the version flag.
\<close>

theorem archive_name_has_three_parts:
  "manifest exampleWorld = Some ''<modid>m</modid><version>1</version><name>N</name>''
   \<and> map_option (\<lambda>(r, evs). (r, bundles evs)) (script exampleWorld)
       = Some (Inr (), [''/r/N_main_1.zip''])
   \<and> ''/r/N_main_1.zip'' \<noteq> join ''/r'' (''N'' @ ''_'' @ ''1'' @ ''.zip'')
   \<and> ''/r/N_main_1.zip'' \<noteq> join ''/r'' (''N'' @ ''_'' @ ''main'' @ ''.zip'')"
  by (simp add: exampleWorld_def run_defs pakLoop.simps digits.simps)

section \<open>The two environments\<close>

text \<open>A pack that ends normally has handed every file of the list to the zip tool.\<close>

lemma pakLoop_zips_all:
  assumes "pakLoop sizeOf tool dir out fl i n = Some y"
  shows "fst y = Inr () \<longrightarrow> zipped (snd y) = map (relative dir) (drop i fl)"
proof (rule pakLoop.raw_induct
    [where P = "\<lambda>sizeOf tool dir out fl i n y.
       fst y = Inr () \<longrightarrow> zipped (snd y) = map (relative dir) (drop i fl)",
     OF _ assms], goal_cases)
  case (1 f sizeOf tool dir out fl i n y)
  define files where "files = filesToPack sizeOf dir (drop i fl) 0"
  have taken: "files = map (relative dir) (take (length files) (drop i fl))"
    unfolding files_def by (rule filesToPack_take)
  have whole: "files @ map (relative dir) (drop (i + length files) fl)
               = map (relative dir) (drop i fl)"
  proof -
    have "take (length files) (drop i fl) @ drop (i + length files) fl = drop i fl"
      by (metis add.commute append_take_drop_id drop_drop)
    then have "map (relative dir) (take (length files) (drop i fl))
            @ map (relative dir) (drop (i + length files) fl)
          = map (relative dir) (drop i fl)"
      by (metis map_append)
    with taken show ?thesis
      by simp
  qed
  from 1(2) whole show ?case
    unfolding files_def [symmetric] Let_def
    by (auto simp: zipped_append Option.bind_eq_Some_conv
        split: if_splits tool_result.splits dest!: 1(1))
qed

lemma compressToPak_zips_all:
  assumes "compressToPak w dir out = Some (Inr (), evs)"
  shows "zipped evs = map (relative dir) (buildFileList dir (dataTree w))
         \<and> zipped evs \<noteq> []"
  using assms pakLoop_zips_all [of "statSize w" "zipTool w" dir out _ 0 0 "(Inr (), evs)"]
  by (auto simp: compressToPak_def exitWith_def Let_def split: if_splits)


lemma andThen_emit_ok:
  "andThen (emit pre) m = Some (Inr (), evs) \<longleftrightarrow> (\<exists>rest. m = Some (Inr (), rest) \<and> evs = pre @ rest)"
  by (auto simp: andThen_ok emit_def)

lemma packMod_events:
  assumes "packMod w modVersion outputFileName = Some (Inr (), evs)"
  shows "\<exists>line1 line2 line3.
      evs = (if existsSync w (join (rootDirectory w) (outputFileName @ ''_'' @ modVersion @ ''.zip''))
             then [RmFile (join (rootDirectory w) (outputFileName @ ''_'' @ modVersion @ ''.zip''))]
             else [])
            @ [Log line1,
               SevenZip (join (rootDirectory w) (outputFileName @ ''_'' @ modVersion @ ''.zip''))
                 (temporaryBuildDirectory w @ ''/*''),
               RmTree (temporaryBuildDirectory w), Log line2, Log line3]"
  using assms by (auto simp: packMod_def Let_def emit_def split: if_splits)

lemma packData_events:
  assumes "packData w modIdentifier = Some (Inr (), evs)"
  shows "\<exists>zipEvs.
      compressToPak w (join (temporaryBuildDirectory w) ''Data'')
        (join (join (temporaryBuildDirectory w) ''Data'') (modIdentifier @ ''.pak''))
      = Some (Inr (), zipEvs)
    \<and> evs = zipEvs
        @ (if existsSync w (join (join (temporaryBuildDirectory w) ''Data'') ''Scripts'')
           then [RmTree (join (join (temporaryBuildDirectory w) ''Data'') ''Scripts'')] else [])
        @ (if existsSync w (join (join (temporaryBuildDirectory w) ''Data'') ''Libs'')
           then [RmTree (join (join (temporaryBuildDirectory w) ''Data'') ''Libs'')] else [])"
  using assms
  by (auto simp: packData_def Let_def andThen_ok removeNonProductionFiles_def emit_def)

text \<open>
  A build that ends normally, in either environment: the banner, the three staging
  actions, the events of the packer, the removal of the two development directories,
  and the events of the bundler, in this order.
\<close>

lemma main_build_steps:
  assumes ok: "main env ver help w = Some (Inr (), evs)"
  shows "\<exists>content modIdentifier modVersion modName zipEvs line1 line2 line3 rest.
      manifest w = Some content
    \<and> execTag ''<modid>'' ''</modid>'' content = Some modIdentifier
    \<and> execTag ''<version>'' ''</version>'' content = Some modVersion
    \<and> execTag ''<name>'' ''</name>'' content = Some modName
    \<and> compressToPak w (join (temporaryBuildDirectory w) ''Data'')
          (join (join (temporaryBuildDirectory w) ''Data'') (modIdentifier @ ''.pak''))
        = Some (Inr (), zipEvs)
    \<and> rest = [RmTree (temporaryBuildDirectory w), MkDir (temporaryBuildDirectory w),
               CpTree (sourceDirectory w) (temporaryBuildDirectory w)]
        @ zipEvs
        @ (if existsSync w (join (join (temporaryBuildDirectory w) ''Data'') ''Scripts'')
           then [RmTree (join (join (temporaryBuildDirectory w) ''Data'') ''Scripts'')] else [])
        @ (if existsSync w (join (join (temporaryBuildDirectory w) ''Data'') ''Libs'')
           then [RmTree (join (join (temporaryBuildDirectory w) ''Data'') ''Libs'')] else [])
        @ (if existsSync w
                (join (rootDirectory w) (modName @ ''_'' @ ver @ ''_'' @ modVersion @ ''.zip''))
           then [RmFile
                   (join (rootDirectory w) (modName @ ''_'' @ ver @ ''_'' @ modVersion @ ''.zip''))]
           else [])
        @ [Log line1,
           SevenZip
             (join (rootDirectory w) (modName @ ''_'' @ ver @ ''_'' @ modVersion @ ''.zip''))
             (temporaryBuildDirectory w @ ''/*''),
           RmTree (temporaryBuildDirectory w), Log line2, Log line3]
    \<and> (env = ''prod'' \<or> env = ''dev'')
    \<and> evs = Log ((if env = ''prod'' then ''Building production version (''
                   else ''Building development version ('') @ ver @ '')...'') # rest
    \<and> main ''prod'' ver help w
        = Some (Inr (), Log (''Building production version ('' @ ver @ '')...'') # rest)
    \<and> main ''dev'' ver help w
        = Some (Inr (), Log (''Building development version ('' @ ver @ '')...'') # rest)"
proof -
  from ok obtain content where content: "manifest w = Some content"
    by (auto simp: main_def exitWith_def split: if_splits option.splits)
  define modIdentifier where
    "modIdentifier = firstTruthy [execTag ''<modid>'' ''</modid>'' content] []"
  define modVersion where
    "modVersion = firstTruthy [execTag ''<version>'' ''</version>'' content] []"
  define modName where "modName = firstTruthy [execTag ''<name>'' ''</name>'' content] []"
  define build where
    "build = andThen (cleanBuildDirectory w)
              (andThen (prepareBuild w)
              (andThen (packData w modIdentifier)
                       (packMod w modVersion (modName @ ''_'' @ ver))))"
  from ok content have gate: "\<not> help" "ver \<in> set validVersions"
      "modIdentifier \<noteq> []" "modVersion \<noteq> []" "modName \<noteq> []"
    by (auto simp: main_def exitWith_def Let_def modIdentifier_def modVersion_def modName_def
        split: if_splits)
  from ok content have env: "env = ''prod'' \<or> env = ''dev''"
    by (auto simp: main_def exitWith_def validEnvironments_def split: if_splits)
  have prod: "main ''prod'' ver help w
      = andThen (emit [Log (''Building production version ('' @ ver @ '')...'')]) build"
    using gate content
    by (simp add: main_def validEnvironments_def Let_def build_def modIdentifier_def
        modVersion_def modName_def)
  have dev: "main ''dev'' ver help w
      = andThen (emit [Log (''Building development version ('' @ ver @ '')...'')]) build"
    using gate content
    by (simp add: main_def validEnvironments_def Let_def build_def modIdentifier_def
        modVersion_def modName_def)
  have "main env ver help w
      = andThen (emit [Log ((if env = ''prod'' then ''Building production version (''
                           else ''Building development version ('') @ ver @ '')...'')]) build"
    using env
  proof
    assume "env = ''prod''"
    then show ?thesis by (simp add: prod)
  next
    assume "env = ''dev''"
    then show ?thesis by (simp add: dev)
  qed
  with ok obtain rest where rest: "build = Some (Inr (), rest)"
    and evs: "evs = Log ((if env = ''prod'' then ''Building production version (''
                         else ''Building development version ('') @ ver @ '')...'') # rest"
    by (auto simp: andThen_emit_ok)
  from rest obtain e4 e5 where
    r: "rest = [RmTree (temporaryBuildDirectory w), MkDir (temporaryBuildDirectory w),
                CpTree (sourceDirectory w) (temporaryBuildDirectory w)] @ e4 @ e5"
    and e4: "packData w modIdentifier = Some (Inr (), e4)"
    and e5: "packMod w modVersion (modName @ ''_'' @ ver) = Some (Inr (), e5)"
    by (auto simp: build_def cleanBuildDirectory_def prepareBuild_def andThen_ok emit_def)
  from packData_events [OF e4] obtain zipEvs where
    z: "compressToPak w (join (temporaryBuildDirectory w) ''Data'')
          (join (join (temporaryBuildDirectory w) ''Data'') (modIdentifier @ ''.pak''))
        = Some (Inr (), zipEvs)"
    and e4': "e4 = zipEvs
        @ (if existsSync w (join (join (temporaryBuildDirectory w) ''Data'') ''Scripts'')
           then [RmTree (join (join (temporaryBuildDirectory w) ''Data'') ''Scripts'')] else [])
        @ (if existsSync w (join (join (temporaryBuildDirectory w) ''Data'') ''Libs'')
           then [RmTree (join (join (temporaryBuildDirectory w) ''Data'') ''Libs'')] else [])"
    by blast
  from packMod_events [OF e5] obtain line1 line2 line3 where
    e5': "e5 = (if existsSync w
                     (join (rootDirectory w)
                        ((modName @ ''_'' @ ver) @ ''_'' @ modVersion @ ''.zip''))
                then [RmFile
                       (join (rootDirectory w)
                          ((modName @ ''_'' @ ver) @ ''_'' @ modVersion @ ''.zip''))]
                else [])
               @ [Log line1,
                  SevenZip
                    (join (rootDirectory w)
                       ((modName @ ''_'' @ ver) @ ''_'' @ modVersion @ ''.zip''))
                    (temporaryBuildDirectory w @ ''/*''),
                  RmTree (temporaryBuildDirectory w), Log line2, Log line3]"
    by blast
  have tags: "execTag ''<modid>'' ''</modid>'' content = Some modIdentifier"
    "execTag ''<version>'' ''</version>'' content = Some modVersion"
    "execTag ''<name>'' ''</name>'' content = Some modName"
    using gate(3-5) unfolding modIdentifier_def modVersion_def modName_def
    by (auto intro: firstTruthy_single_Some)
  have p: "main ''prod'' ver help w
        = Some (Inr (), Log (''Building production version ('' @ ver @ '')...'') # rest)"
    and d: "main ''dev'' ver help w
        = Some (Inr (), Log (''Building development version ('' @ ver @ '')...'') # rest)"
    unfolding prod dev using rest by (simp_all add: andThen_emit_ok)
  have rest_eq: "rest = [RmTree (temporaryBuildDirectory w), MkDir (temporaryBuildDirectory w),
               CpTree (sourceDirectory w) (temporaryBuildDirectory w)]
        @ zipEvs
        @ (if existsSync w (join (join (temporaryBuildDirectory w) ''Data'') ''Scripts'')
           then [RmTree (join (join (temporaryBuildDirectory w) ''Data'') ''Scripts'')] else [])
        @ (if existsSync w (join (join (temporaryBuildDirectory w) ''Data'') ''Libs'')
           then [RmTree (join (join (temporaryBuildDirectory w) ''Data'') ''Libs'')] else [])
        @ (if existsSync w
                (join (rootDirectory w) (modName @ ''_'' @ ver @ ''_'' @ modVersion @ ''.zip''))
           then [RmFile
                   (join (rootDirectory w) (modName @ ''_'' @ ver @ ''_'' @ modVersion @ ''.zip''))]
           else [])
        @ [Log line1,
           SevenZip
             (join (rootDirectory w) (modName @ ''_'' @ ver @ ''_'' @ modVersion @ ''.zip''))
             (temporaryBuildDirectory w @ ''/*''),
           RmTree (temporaryBuildDirectory w), Log line2, Log line3]"
    unfolding r e4' e5' by simp
  show ?thesis
    apply (intro exI conjI)
            apply (rule content)
           apply (rule tags(1))
          apply (rule tags(2))
         apply (rule tags(3))
        apply (rule z)
       apply (rule rest_eq)
      apply (rule env)
     apply (rule evs)
    apply (rule p)
    apply (rule d)
    done
qed


text \<open>
  Claim C9: take two runs that differ only in their arguments and environment
  variables, one with the environment \<^verbatim>\<open>prod\<close> and one with \<^verbatim>\<open>dev\<close>, and with the
  same version and the same help flag. Their results and their actions on files and
  tools are the same; either neither run ends, or both end with the same result and the
  same events after one console line each. And when the \<^verbatim>\<open>prod\<close> run ends normally,
  both runs are, after their banner, the same sequence: the staging directory is
  removed, created and filled from the source directory; then the packer runs on the
  staged \<^verbatim>\<open>Data\<close> directory and the archive path of the mod identifier, and hands
  every enumerated file to the zip tool; then the two development directories are
  removed where they exist; then the bundler removes an existing archive of the final
  name, runs the archival tool once on that name and the staging directory, and
  removes the staging directory.
\<close>

theorem prod_and_dev_run_alike:
  assumes wp: "wp = w\<lparr>args := a1, envMODE := m1, envVERSION := v1\<rparr>"
    and wd: "wd = w\<lparr>args := a2, envMODE := m2, envVERSION := v2\<rparr>"
    and envs: "environment wp = ''prod''" "environment wd = ''dev''"
    and same: "version wp = version wd" "isHelpRequested wp = isHelpRequested wd"
    and tmp: "tmp = join (rootDirectory w) ''temp_build''"
    and src: "src = join (rootDirectory w) ''src''"
    and dataDir: "dataDir = join tmp ''Data''"
  shows "map_option (\<lambda>(r, evs). (r, actions evs)) (script wp)
         = map_option (\<lambda>(r, evs). (r, actions evs)) (script wd)
       \<and> ((script wp = None \<and> script wd = None)
          \<or> (\<exists>r l1 l2 evs. script wp = Some (r, l1 # evs) \<and> script wd = Some (r, l2 # evs)
                \<and> isConsole l1 \<and> isConsole l2))
       \<and> (\<forall>evs. script wp = Some (Inr (), evs) \<longrightarrow>
            (\<exists>content modIdentifier modVersion modName zipEvs line1 line2 line3 rest.
                manifest w = Some content
              \<and> execTag ''<modid>'' ''</modid>'' content = Some modIdentifier
              \<and> execTag ''<version>'' ''</version>'' content = Some modVersion
              \<and> execTag ''<name>'' ''</name>'' content = Some modName
              \<and> compressToPak w dataDir (join dataDir (modIdentifier @ ''.pak''))
                  = Some (Inr (), zipEvs)
              \<and> zipped zipEvs = map (relative dataDir) (buildFileList dataDir (dataTree w))
              \<and> zipped zipEvs \<noteq> []
              \<and> bundles zipEvs = []
              \<and> rest = [RmTree tmp, MkDir tmp, CpTree src tmp]
                  @ zipEvs
                  @ (if existsSync w (join dataDir ''Scripts'')
                     then [RmTree (join dataDir ''Scripts'')] else [])
                  @ (if existsSync w (join dataDir ''Libs'')
                     then [RmTree (join dataDir ''Libs'')] else [])
                  @ (if existsSync w
                          (join (rootDirectory w)
                             (modName @ ''_'' @ version wp @ ''_'' @ modVersion @ ''.zip''))
                     then [RmFile
                             (join (rootDirectory w)
                                (modName @ ''_'' @ version wp @ ''_'' @ modVersion @ ''.zip''))]
                     else [])
                  @ [Log line1,
                     SevenZip
                       (join (rootDirectory w)
                          (modName @ ''_'' @ version wp @ ''_'' @ modVersion @ ''.zip''))
                       (tmp @ ''/*''),
                     RmTree tmp, Log line2, Log line3]
              \<and> evs = Log (''Building production version ('' @ version wp @ '')...'') # rest
              \<and> script wd
                  = Some (Inr (),
                          Log (''Building development version ('' @ version wd @ '')...'') # rest)))"
proof -
  have "script wp = main ''prod'' (version wd) (isHelpRequested wd) wp"
    by (simp only: script_def envs same)
  also have "\<dots> = main ''prod'' (version wd) (isHelpRequested wd) w"
    unfolding wp by (rule main_ignores_flags)
  finally have sp: "script wp = main ''prod'' (version wd) (isHelpRequested wd) w" .
  have "script wd = main ''dev'' (version wd) (isHelpRequested wd) wd"
    by (simp only: script_def envs)
  also have "\<dots> = main ''dev'' (version wd) (isHelpRequested wd) w"
    unfolding wd by (rule main_ignores_flags)
  finally have sd: "script wd = main ''dev'' (version wd) (isHelpRequested wd) w" .
  have alike:
    "(script wp = None \<and> script wd = None)
     \<or> (\<exists>r l1 l2 evs. script wp = Some (r, l1 # evs) \<and> script wd = Some (r, l2 # evs)
           \<and> isConsole l1 \<and> isConsole l2)"
    unfolding sp sd by (rule main_prod_dev)
  then have acts: "map_option (\<lambda>(r, evs). (r, actions evs)) (script wp)
         = map_option (\<lambda>(r, evs). (r, actions evs)) (script wd)"
    by (auto simp: actions_console)
  have steps: "\<exists>content modIdentifier modVersion modName zipEvs line1 line2 line3 rest.
                manifest w = Some content
              \<and> execTag ''<modid>'' ''</modid>'' content = Some modIdentifier
              \<and> execTag ''<version>'' ''</version>'' content = Some modVersion
              \<and> execTag ''<name>'' ''</name>'' content = Some modName
              \<and> compressToPak w dataDir (join dataDir (modIdentifier @ ''.pak''))
                  = Some (Inr (), zipEvs)
              \<and> zipped zipEvs = map (relative dataDir) (buildFileList dataDir (dataTree w))
              \<and> zipped zipEvs \<noteq> []
              \<and> bundles zipEvs = []
              \<and> rest = [RmTree tmp, MkDir tmp, CpTree src tmp]
                  @ zipEvs
                  @ (if existsSync w (join dataDir ''Scripts'')
                     then [RmTree (join dataDir ''Scripts'')] else [])
                  @ (if existsSync w (join dataDir ''Libs'')
                     then [RmTree (join dataDir ''Libs'')] else [])
                  @ (if existsSync w
                          (join (rootDirectory w)
                             (modName @ ''_'' @ version wp @ ''_'' @ modVersion @ ''.zip''))
                     then [RmFile
                             (join (rootDirectory w)
                                (modName @ ''_'' @ version wp @ ''_'' @ modVersion @ ''.zip''))]
                     else [])
                  @ [Log line1,
                     SevenZip
                       (join (rootDirectory w)
                          (modName @ ''_'' @ version wp @ ''_'' @ modVersion @ ''.zip''))
                       (tmp @ ''/*''),
                     RmTree tmp, Log line2, Log line3]
              \<and> evs = Log (''Building production version ('' @ version wp @ '')...'') # rest
              \<and> script wd
                  = Some (Inr (),
                          Log (''Building development version ('' @ version wd @ '')...'') # rest)"
    if run: "script wp = Some (Inr (), evs)" for evs
  proof -
    from run have "main ''prod'' (version wd) (isHelpRequested wd) w = Some (Inr (), evs)"
      by (simp only: sp)
    from main_build_steps [OF this]
    obtain content modIdentifier modVersion modName zipEvs line1 line2 line3 rest where
      b: "manifest w = Some content"
        "execTag ''<modid>'' ''</modid>'' content = Some modIdentifier"
        "execTag ''<version>'' ''</version>'' content = Some modVersion"
        "execTag ''<name>'' ''</name>'' content = Some modName"
      and z: "compressToPak w dataDir (join dataDir (modIdentifier @ ''.pak''))
              = Some (Inr (), zipEvs)"
      and r: "rest = [RmTree tmp, MkDir tmp, CpTree src tmp]
          @ zipEvs
          @ (if existsSync w (join dataDir ''Scripts'')
             then [RmTree (join dataDir ''Scripts'')] else [])
          @ (if existsSync w (join dataDir ''Libs'')
             then [RmTree (join dataDir ''Libs'')] else [])
          @ (if existsSync w
                  (join (rootDirectory w)
                     (modName @ ''_'' @ version wp @ ''_'' @ modVersion @ ''.zip''))
             then [RmFile
                     (join (rootDirectory w)
                        (modName @ ''_'' @ version wp @ ''_'' @ modVersion @ ''.zip''))]
             else [])
          @ [Log line1,
             SevenZip
               (join (rootDirectory w)
                  (modName @ ''_'' @ version wp @ ''_'' @ modVersion @ ''.zip''))
               (tmp @ ''/*''),
             RmTree tmp, Log line2, Log line3]"
      and e: "evs = Log (''Building production version ('' @ version wp @ '')...'') # rest"
      and d: "script wd
              = Some (Inr (),
                      Log (''Building development version ('' @ version wd @ '')...'') # rest)"
      unfolding sd same(1) tmp src dataDir temporaryBuildDirectory_def sourceDirectory_def
      by force
    from compressToPak_zips_all [OF z] compressToPak_no_bundle [OF z]
    have zs: "zipped zipEvs = map (relative dataDir) (buildFileList dataDir (dataTree w))"
      "zipped zipEvs \<noteq> []" "bundles zipEvs = []"
      by auto
    show ?thesis
      apply (intro exI conjI)
                 apply (rule b(1))
                apply (rule b(2))
               apply (rule b(3))
              apply (rule b(4))
             apply (rule z)
            apply (rule zs(1))
           apply (rule zs(2))
          apply (rule zs(3))
         apply (rule r)
        apply (rule e)
      apply (rule d)
      done
  qed
  from acts alike steps show ?thesis
    by blast
qed


theorem prod_and_dev_run_alike_witness:
  "environment (exampleWorld\<lparr>args := [''--env=prod'', ''--version=lorem-ipsum''],
                             envMODE := None, envVERSION := None\<rparr>) = ''prod''
   \<and> environment (exampleWorld\<lparr>args := [''--version=lorem-ipsum''],
                               envMODE := Some ''dev'', envVERSION := None\<rparr>) = ''dev''
   \<and> script (exampleWorld\<lparr>args := [''--env=prod'', ''--version=lorem-ipsum''],
                          envMODE := None, envVERSION := None\<rparr>)
       = Some (Inr (),
           Log ''Building production version (lorem-ipsum)...''
           # [RmTree ''/r/temp_build'', MkDir ''/r/temp_build'',
              CpTree ''/r/src'' ''/r/temp_build'',
              Log (''Creating pak part 0: ''
                   @ zipCommand ''/r/temp_build/Data/m.pak'' [''a'', ''b'']),
              Zip ''/r/temp_build/Data'' ''/r/temp_build/Data/m.pak'' [''a'', ''b''],
              Rename ''/r/temp_build/Data/m.pak'' ''/r/temp_build/Data/m-part0.pak'',
              Log (''Creating pak part 1: ''
                   @ zipCommand ''/r/temp_build/Data/m-part1.pak'' [''c'']),
              Zip ''/r/temp_build/Data'' ''/r/temp_build/Data/m-part1.pak'' [''c''],
              Log (''Zipping final mod: '' @ dq @ ''/r/node_modules/7z-bin/linux/7zzs'' @ dq
                   @ '' a '' @ dq @ ''/r/N_lorem-ipsum_1.zip'' @ dq @ '' '' @ dq
                   @ ''/r/temp_build/*'' @ dq),
              SevenZip ''/r/N_lorem-ipsum_1.zip'' ''/r/temp_build/*'',
              RmTree ''/r/temp_build'',
              Log ''Built N_lorem-ipsum mod: /r/N_lorem-ipsum_1.zip'',
              Log ''ZIP_FILE:/r/N_lorem-ipsum_1.zip''])
   \<and> script (exampleWorld\<lparr>args := [''--version=lorem-ipsum''],
                          envMODE := Some ''dev'', envVERSION := None\<rparr>)
       = Some (Inr (),
           Log ''Building development version (lorem-ipsum)...''
           # [RmTree ''/r/temp_build'', MkDir ''/r/temp_build'',
              CpTree ''/r/src'' ''/r/temp_build'',
              Log (''Creating pak part 0: ''
                   @ zipCommand ''/r/temp_build/Data/m.pak'' [''a'', ''b'']),
              Zip ''/r/temp_build/Data'' ''/r/temp_build/Data/m.pak'' [''a'', ''b''],
              Rename ''/r/temp_build/Data/m.pak'' ''/r/temp_build/Data/m-part0.pak'',
              Log (''Creating pak part 1: ''
                   @ zipCommand ''/r/temp_build/Data/m-part1.pak'' [''c'']),
              Zip ''/r/temp_build/Data'' ''/r/temp_build/Data/m-part1.pak'' [''c''],
              Log (''Zipping final mod: '' @ dq @ ''/r/node_modules/7z-bin/linux/7zzs'' @ dq
                   @ '' a '' @ dq @ ''/r/N_lorem-ipsum_1.zip'' @ dq @ '' '' @ dq
                   @ ''/r/temp_build/*'' @ dq),
              SevenZip ''/r/N_lorem-ipsum_1.zip'' ''/r/temp_build/*'',
              RmTree ''/r/temp_build'',
              Log ''Built N_lorem-ipsum mod: /r/N_lorem-ipsum_1.zip'',
              Log ''ZIP_FILE:/r/N_lorem-ipsum_1.zip''])"
proof -
  let ?p = "exampleWorld\<lparr>args := [''--env=prod'', ''--version=lorem-ipsum''],
                         envMODE := None, envVERSION := None\<rparr>"
  let ?d = "exampleWorld\<lparr>args := [''--version=lorem-ipsum''],
                         envMODE := Some ''dev'', envVERSION := None\<rparr>"
  let ?rest = "[RmTree ''/r/temp_build'', MkDir ''/r/temp_build'',
              CpTree ''/r/src'' ''/r/temp_build'',
              Log (''Creating pak part 0: ''
                   @ zipCommand ''/r/temp_build/Data/m.pak'' [''a'', ''b'']),
              Zip ''/r/temp_build/Data'' ''/r/temp_build/Data/m.pak'' [''a'', ''b''],
              Rename ''/r/temp_build/Data/m.pak'' ''/r/temp_build/Data/m-part0.pak'',
              Log (''Creating pak part 1: ''
                   @ zipCommand ''/r/temp_build/Data/m-part1.pak'' [''c'']),
              Zip ''/r/temp_build/Data'' ''/r/temp_build/Data/m-part1.pak'' [''c''],
              Log (''Zipping final mod: '' @ dq @ ''/r/node_modules/7z-bin/linux/7zzs'' @ dq
                   @ '' a '' @ dq @ ''/r/N_lorem-ipsum_1.zip'' @ dq @ '' '' @ dq
                   @ ''/r/temp_build/*'' @ dq),
              SevenZip ''/r/N_lorem-ipsum_1.zip'' ''/r/temp_build/*'',
              RmTree ''/r/temp_build'',
              Log ''Built N_lorem-ipsum mod: /r/N_lorem-ipsum_1.zip'',
              Log ''ZIP_FILE:/r/N_lorem-ipsum_1.zip'']"
  have p: "environment ?p = ''prod''"
    by (simp add: environment_def flagValue_def)
  have d: "environment ?d = ''dev''"
    by (simp add: environment_def flagValue_def)
  have vp: "version ?p = ''lorem-ipsum''" and vd: "version ?d = ''lorem-ipsum''"
    by (simp_all add: version_def flagValue_def)
  have v: "version ?p = version ?d"
    by (simp only: vp vd)
  have h: "isHelpRequested ?p = isHelpRequested ?d"
    by (simp add: isHelpRequested_def)
  have run: "script ?p = Some (Inr (), Log ''Building production version (lorem-ipsum)...'' # ?rest)"
    by (simp add: exampleWorld_def run_defs pakLoop.simps digits.simps)
  note steps = prod_and_dev_run_alike [OF refl refl p d v h refl refl refl,
      THEN conjunct2, THEN conjunct2, rule_format, OF run]
  from steps obtain rest where
    "Log ''Building production version (lorem-ipsum)...'' # ?rest
     = Log (''Building production version ('' @ version ?p @ '')...'') # rest"
    and "script ?d = Some (Inr (), Log (''Building development version ('' @ version ?d @ '')...'') # rest)"
    by (elim exE conjE) (erule (1) that)
  then have "script ?d = Some (Inr (), Log ''Building development version (lorem-ipsum)...'' # ?rest)"
    by (simp add: vd)
  with p d run show ?thesis
    by (intro conjI)
qed

end
